theory Spec2Isabelle
  imports Complex_Main
begin

section \<open>Python values\<close>

text \<open>
  The service is dynamically typed: \<open>add_book_to_catalog\<close> guards its string arguments
  with \<open>x or ""\<close> and its integer argument with \<open>isinstance\<close>, the patron checks start
  with \<open>not patron_id\<close>, and \<open>book_id\<close> goes through \<open>int(book_id)\<close> inside
  \<open>try/except\<close>. The arguments of those functions therefore range over Python values:
  \<open>None\<close>, booleans, integers and strings; floats are left out.

  A Python \<open>str\<close> is a sequence of Unicode code points, here a list of natural
  numbers; \<open>len\<close> is \<open>length\<close>. \<open>str\<close> turns a literal into such a list.
\<close>

type_synonym pystr = "nat list"

definition str :: "string \<Rightarrow> pystr" where
  "str cs = map of_char cs"

datatype pyval = PNone | PBool bool | PInt int | PStr pystr

text \<open>
  What the service can raise: \<open>AttributeError\<close> from a method call on a value that is not
  a string, \<open>OverflowError\<close> from binding an integer that does not fit the 64 bits of a
  database integer, and \<open>DatabaseError\<close> for a failure of the database itself.
\<close>

datatype py_exn = AttributeError | OverflowError | DatabaseError

text \<open>Truth value of an object, as \<open>not x\<close> and \<open>x or y\<close> test it.\<close>

fun truthy :: "pyval \<Rightarrow> bool" where
  "truthy PNone = False"
| "truthy (PBool b) = b"
| "truthy (PInt n) = (n \<noteq> 0)"
| "truthy (PStr s) = (s \<noteq> [])"

subsection \<open>Character classes\<close>

text \<open>
  The character classes of CPython 3.11 (Unicode 14.0), as inclusive ranges of code
  points: the characters for which \<open>str.isspace\<close> holds, which \<open>str.strip()\<close> removes;
  those for which \<open>str.isdigit\<close> holds; and the decimal digits (\<open>str.isdecimal\<close>), which
  are the digits \<open>int()\<close> reads. Every range of decimal digits is made of runs of ten
  code points for the digits 0 to 9 in order.
\<close>

fun in_ranges :: "nat \<Rightarrow> (nat \<times> nat) list \<Rightarrow> bool" where
  "in_ranges c [] = False"
| "in_ranges c ((lo, hi) # rs) = (if lo \<le> c \<and> c \<le> hi then True else in_ranges c rs)"

definition space_ranges :: "(nat \<times> nat) list" where
  "space_ranges =
     [(9, 13), (28, 32), (133, 133), (160, 160), (5760, 5760), (8192, 8202), (8232, 8233),
      (8239, 8239), (8287, 8287), (12288, 12288)]"

definition digit_ranges :: "(nat \<times> nat) list" where
  "digit_ranges =
     [(48, 57), (178, 179), (185, 185), (1632, 1641), (1776, 1785), (1984, 1993),
      (2406, 2415), (2534, 2543), (2662, 2671), (2790, 2799), (2918, 2927), (3046, 3055),
      (3174, 3183), (3302, 3311), (3430, 3439), (3558, 3567), (3664, 3673), (3792, 3801),
      (3872, 3881), (4160, 4169), (4240, 4249), (4969, 4977), (6112, 6121), (6160, 6169),
      (6470, 6479), (6608, 6618), (6784, 6793), (6800, 6809), (6992, 7001), (7088, 7097),
      (7232, 7241), (7248, 7257), (8304, 8304), (8308, 8313), (8320, 8329), (9312, 9320),
      (9332, 9340), (9352, 9360), (9450, 9450), (9461, 9469), (9471, 9471), (10102, 10110),
      (10112, 10120), (10122, 10130), (42528, 42537), (43216, 43225), (43264, 43273),
      (43472, 43481), (43504, 43513), (43600, 43609), (44016, 44025), (65296, 65305),
      (66720, 66729), (68160, 68163), (68912, 68921), (69216, 69224), (69714, 69722),
      (69734, 69743), (69872, 69881), (69942, 69951), (70096, 70105), (70384, 70393),
      (70736, 70745), (70864, 70873), (71248, 71257), (71360, 71369), (71472, 71481),
      (71904, 71913), (72016, 72025), (72784, 72793), (73040, 73049), (73120, 73129),
      (92768, 92777), (92864, 92873), (93008, 93017), (120782, 120831), (123200, 123209),
      (123632, 123641), (125264, 125273), (127232, 127242), (130032, 130041)]"

definition decimal_ranges :: "(nat \<times> nat) list" where
  "decimal_ranges =
     [(48, 57), (1632, 1641), (1776, 1785), (1984, 1993), (2406, 2415), (2534, 2543),
      (2662, 2671), (2790, 2799), (2918, 2927), (3046, 3055), (3174, 3183), (3302, 3311),
      (3430, 3439), (3558, 3567), (3664, 3673), (3792, 3801), (3872, 3881), (4160, 4169),
      (4240, 4249), (6112, 6121), (6160, 6169), (6470, 6479), (6608, 6617), (6784, 6793),
      (6800, 6809), (6992, 7001), (7088, 7097), (7232, 7241), (7248, 7257), (42528, 42537),
      (43216, 43225), (43264, 43273), (43472, 43481), (43504, 43513), (43600, 43609),
      (44016, 44025), (65296, 65305), (66720, 66729), (68912, 68921), (69734, 69743),
      (69872, 69881), (69942, 69951), (70096, 70105), (70384, 70393), (70736, 70745),
      (70864, 70873), (71248, 71257), (71360, 71369), (71472, 71481), (71904, 71913),
      (72016, 72025), (72784, 72793), (73040, 73049), (73120, 73129), (92768, 92777),
      (92864, 92873), (93008, 93017), (120782, 120831), (123200, 123209), (123632, 123641),
      (125264, 125273), (130032, 130041)]"

definition is_space :: "nat \<Rightarrow> bool" where
  "is_space c = in_ranges c space_ranges"

definition is_digit :: "nat \<Rightarrow> bool" where
  "is_digit c = in_ranges c digit_ranges"

fun decimal_in :: "nat \<Rightarrow> (nat \<times> nat) list \<Rightarrow> nat option" where
  "decimal_in c [] = None"
| "decimal_in c ((lo, hi) # rs) =
     (if lo \<le> c \<and> c \<le> hi then Some ((c - lo) mod 10) else decimal_in c rs)"

definition decimal :: "nat \<Rightarrow> nat option" where
  "decimal c = decimal_in c decimal_ranges"

text \<open>\<open>str.isdigit\<close> and \<open>str.strip\<close> (no argument).\<close>

definition isdigit :: "pystr \<Rightarrow> bool" where
  "isdigit s = (s \<noteq> [] \<and> list_all is_digit s)"

definition strip :: "pystr \<Rightarrow> pystr" where
  "strip s = rev (dropWhile is_space (rev (dropWhile is_space s)))"

subsection \<open>Integers\<close>

text \<open>
  \<open>isinstance(v, int)\<close> together with the integer the value stands for: \<open>bool\<close> is a
  subclass of \<open>int\<close>, with \<open>True == 1\<close> and \<open>False == 0\<close>.
\<close>

fun as_int :: "pyval \<Rightarrow> int option" where
  "as_int (PInt n) = Some n"
| "as_int (PBool b) = Some (if b then 1 else 0)"
| "as_int _ = None"

text \<open>
  \<open>int(x)\<close> under \<open>try/except Exception\<close>: \<open>None\<close> when the conversion raises. For a
  string, \<open>int\<close> skips white space at both ends, where the separators U+001C to U+001F
  do not count as white space; it reads one optional sign and then decimal digits of any
  script, between which single underscores may stand; and it refuses more than 4300
  digits (the default limit of CPython 3.11).
\<close>

definition is_int_space :: "nat \<Rightarrow> bool" where
  "is_int_space c = (is_space c \<and> \<not> (28 \<le> c \<and> c \<le> 31))"

definition int_strip :: "pystr \<Rightarrow> pystr" where
  "int_strip s = rev (dropWhile is_int_space (rev (dropWhile is_int_space s)))"

definition is_decimal :: "nat \<Rightarrow> bool" where
  "is_decimal c = (decimal c \<noteq> None)"

fun int_literal_ok :: "pystr \<Rightarrow> bool" where
  "int_literal_ok [] = False"
| "int_literal_ok [c] = is_decimal c"
| "int_literal_ok (c # d # cs) =
     (is_decimal c \<and> (if d = 95 then int_literal_ok cs else int_literal_ok (d # cs)))"

definition digit_val :: "nat \<Rightarrow> int" where
  "digit_val c = (case decimal c of None \<Rightarrow> 0 | Some d \<Rightarrow> int d)"

definition dec_value :: "pystr \<Rightarrow> int" where
  "dec_value s = foldl (\<lambda>acc c. 10 * acc + digit_val c) 0 (filter is_decimal s)"

definition unsigned_int :: "pystr \<Rightarrow> int option" where
  "unsigned_int s =
     (if int_literal_ok s \<and> length (filter is_decimal s) \<le> 4300
      then Some (dec_value s) else None)"

text \<open>The sign is \<open>-\<close> (45) or \<open>+\<close> (43); the underscore is 95.\<close>

fun signed_int :: "pystr \<Rightarrow> int option" where
  "signed_int [] = None"
| "signed_int (c # cs) =
     (if c = 45 then map_option uminus (unsigned_int cs)
      else if c = 43 then unsigned_int cs
      else unsigned_int (c # cs))"

fun py_int :: "pyval \<Rightarrow> int option" where
  "py_int PNone = None"
| "py_int (PBool b) = Some (if b then 1 else 0)"
| "py_int (PInt n) = Some n"
| "py_int (PStr s) = signed_int (int_strip s)"

text \<open>The integers that the database binds: those of 64 bits, signed.\<close>

definition in_int64 :: "int \<Rightarrow> bool" where
  "in_int64 n = (- (2 ^ 63) \<le> n \<and> n < 2 ^ 63)"

section \<open>Time\<close>

text \<open>
  A naive \<open>datetime\<close>: \<open>day\<close> is the ordinal of its calendar date (\<open>date.toordinal()\<close>),
  \<open>micros\<close> the time of day. \<open>d + timedelta(days=n)\<close> moves the date and keeps the time of
  day; \<open>(a.date() - b.date()).days\<close> is the difference of the ordinals.
\<close>

record datetime =
  day :: int
  micros :: nat

definition plus_days :: "datetime \<Rightarrow> int \<Rightarrow> datetime" where
  "plus_days d n = d\<lparr>day := day d + n\<rparr>"

section \<open>The store\<close>

record book =
  b_id :: int
  b_title :: pystr
  b_author :: pystr
  b_isbn :: pystr
  b_total_copies :: int
  b_available_copies :: int

text \<open>
  A row of \<open>borrows\<close>. \<open>r_due_date\<close> is the stored text of the due date as
  \<open>datetime.fromisoformat\<close> reads it: \<open>Some d\<close> when it parses to \<open>d\<close>, \<open>None\<close> when
  parsing raises. \<open>r_return_date = None\<close> is SQL \<open>NULL\<close>: the loan is active.
\<close>

record borrow_record =
  r_id :: int
  r_patron_id :: pystr
  r_book_id :: int
  r_borrow_date :: datetime
  r_due_date :: "datetime option"
  r_return_date :: "datetime option"

record store =
  books :: "book list"
  borrows :: "borrow_record list"

definition empty_store :: store where
  "empty_store = \<lparr>books = [], borrows = []\<rparr>"

text \<open>
  How the database behaves during one call of an operation. The first four fields say
  which storage writes succeed; a write that fails returns \<open>False\<close> and leaves the store
  as it was. The last two are about the query that \<open>calculate_late_fee_for_book\<close> runs
  itself, outside any \<open>try\<close>: \<open>fee_prepare_ok\<close> says that the connection is acquired and
  the statement prepared, \<open>fee_step_ok\<close> that the statement, once its parameters are
  bound, runs, its row is fetched and the connection is closed.
\<close>

record io =
  insert_book_ok :: bool
  insert_borrow_record_ok :: bool
  update_return_date_ok :: bool
  update_availability_ok :: bool
  fee_prepare_ok :: bool
  fee_step_ok :: bool

definition all_ok :: io where
  "all_ok = \<lparr>insert_book_ok = True, insert_borrow_record_ok = True,
             update_return_date_ok = True, update_availability_ok = True,
             fee_prepare_ok = True, fee_step_ok = True\<rparr>"

subsection \<open>The persistence collaborator\<close>

fun max_id :: "int list \<Rightarrow> int" where
  "max_id [] = 0"
| "max_id (x # xs) = max x (max_id xs)"

text \<open>Modelled from the spec: \<open>get_book_by_id(id) \<rightarrow> Book|null\<close> of the absent module
  \<open>database\<close>.\<close>

definition get_book_by_id :: "store \<Rightarrow> int \<Rightarrow> book option" where
  "get_book_by_id s n = find (\<lambda>b. b_id b = n) (books s)"

text \<open>Modelled from the spec: \<open>get_book_by_isbn(isbn) \<rightarrow> Book|null\<close> of the absent module
  \<open>database\<close>.\<close>

definition get_book_by_isbn :: "store \<Rightarrow> pystr \<Rightarrow> book option" where
  "get_book_by_isbn s i = find (\<lambda>b. b_isbn b = i) (books s)"

text \<open>Modelled from the spec: \<open>insert_book(title, author, isbn, total, available) \<rightarrow> bool\<close>
  of the absent module \<open>database\<close>; the id is unique and generated on insert.\<close>

definition insert_book ::
  "bool \<Rightarrow> pystr \<Rightarrow> pystr \<Rightarrow> pystr \<Rightarrow> int \<Rightarrow> int \<Rightarrow> store \<Rightarrow> bool \<times> store" where
  "insert_book ok t a i copies avail s =
     (if ok
      then (True, s\<lparr>books := books s @
              [\<lparr>b_id = max_id (map b_id (books s)) + 1, b_title = t, b_author = a,
                b_isbn = i, b_total_copies = copies, b_available_copies = avail\<rparr>]\<rparr>)
      else (False, s))"

text \<open>Modelled from the spec: \<open>get_patron_borrow_count(patron_id) \<rightarrow> int\<close> of the absent
  module \<open>database\<close>, the count of active (unreturned) records of the patron.\<close>

definition get_patron_borrow_count :: "store \<Rightarrow> pystr \<Rightarrow> int" where
  "get_patron_borrow_count s p =
     int (length (filter (\<lambda>r. r_patron_id r = p \<and> r_return_date r = None) (borrows s)))"

text \<open>Modelled from the spec: \<open>insert_borrow_record(patron_id, book_id, borrow_date,
  due_date) \<rightarrow> bool\<close> of the absent module \<open>database\<close>; the new row is active.\<close>

definition insert_borrow_record ::
  "bool \<Rightarrow> pystr \<Rightarrow> int \<Rightarrow> datetime \<Rightarrow> datetime \<Rightarrow> store \<Rightarrow> bool \<times> store" where
  "insert_borrow_record ok p n borrowed due s =
     (if ok
      then (True, s\<lparr>borrows := borrows s @
              [\<lparr>r_id = max_id (map r_id (borrows s)) + 1, r_patron_id = p, r_book_id = n,
                r_borrow_date = borrowed, r_due_date = Some due, r_return_date = None\<rparr>]\<rparr>)
      else (False, s))"

text \<open>
  The most recent active row of a patron and a book. This is the query that
  \<open>calculate_late_fee_for_book\<close> runs itself:
  \<^verbatim>\<open>SELECT id, due_date FROM borrows
    WHERE patron_id = ? AND book_id = ? AND return_date IS NULL
    ORDER BY id DESC LIMIT 1\<close>
\<close>

fun latest :: "borrow_record list \<Rightarrow> borrow_record option" where
  "latest [] = None"
| "latest (r # rs) =
     (case latest rs of
        None \<Rightarrow> Some r
      | Some r' \<Rightarrow> if r_id r < r_id r' then Some r' else Some r)"

definition active_for :: "pystr \<Rightarrow> int \<Rightarrow> borrow_record \<Rightarrow> bool" where
  "active_for p n r = (r_patron_id r = p \<and> r_book_id r = n \<and> r_return_date r = None)"

definition active_borrow :: "store \<Rightarrow> pystr \<Rightarrow> int \<Rightarrow> borrow_record option" where
  "active_borrow s p n = latest (filter (active_for p n) (borrows s))"

text \<open>Modelled from the spec: \<open>update_borrow_record_return_date(patron_id, book_id,
  return_date) \<rightarrow> bool\<close> of the absent module \<open>database\<close>: it returns false if there is no
  matching active record, and operates on the most recently created matching record.\<close>

definition update_borrow_record_return_date ::
  "bool \<Rightarrow> pystr \<Rightarrow> int \<Rightarrow> datetime \<Rightarrow> store \<Rightarrow> bool \<times> store" where
  "update_borrow_record_return_date ok p n now s =
     (case active_borrow s p n of
        None \<Rightarrow> (False, s)
      | Some r \<Rightarrow>
          if ok
          then (True, s\<lparr>borrows :=
                  map (\<lambda>x. if r_id x = r_id r then x\<lparr>r_return_date := Some now\<rparr> else x)
                    (borrows s)\<rparr>)
          else (False, s))"

text \<open>Modelled from the spec: \<open>update_book_availability(book_id, delta) \<rightarrow> bool\<close> of the
  absent module \<open>database\<close>: it adds \<open>delta\<close> to the available copies of the book.\<close>

definition update_book_availability :: "bool \<Rightarrow> int \<Rightarrow> int \<Rightarrow> store \<Rightarrow> bool \<times> store" where
  "update_book_availability ok n delta s =
     (if ok
      then (True, s\<lparr>books :=
              map (\<lambda>b. if b_id b = n
                        then b\<lparr>b_available_copies := b_available_copies b + delta\<rparr> else b)
                (books s)\<rparr>)
      else (False, s))"

section \<open>Replies\<close>

text \<open>
  Every operation returns a pair of a success flag and a message. A reply stands for one
  \<open>return\<close> statement of the service; \<open>is_success\<close> is its flag.
\<close>

datatype reason =
    TitleRequired       \<comment> \<open>"Title is required."\<close>
  | TitleTooLong        \<comment> \<open>"Title must be less than 200 characters."\<close>
  | AuthorRequired      \<comment> \<open>"Author is required."\<close>
  | AuthorTooLong       \<comment> \<open>"Author must be less than 100 characters."\<close>
  | IsbnNot13Digits     \<comment> \<open>"ISBN must be exactly 13 digits."\<close>
  | CopiesNotPositive   \<comment> \<open>"Total copies must be a positive integer."\<close>

datatype db_write =
    AddingBook                \<comment> \<open>"Database error occurred while adding the book."\<close>
  | CreatingBorrowRecord      \<comment> \<open>"Database error occurred while creating borrow record."\<close>
  | UpdatingBookAvailability  \<comment> \<open>"Database error occurred while updating book availability."\<close>
  | UpdatingAvailability      \<comment> \<open>"Database error occurred while updating availability."\<close>

datatype reply =
    ValidationError reason
  | DuplicateIsbnError        \<comment> \<open>"A book with this ISBN already exists."\<close>
  | PersistenceError db_write
  | InvalidPatronId           \<comment> \<open>"Invalid patron ID. Must be exactly 6 digits."\<close>
  | BookNotFound              \<comment> \<open>"Book not found."\<close>
  | BookUnavailable           \<comment> \<open>"This book is currently not available."\<close>
  | BorrowLimitExceeded       \<comment> \<open>"You have reached the maximum borrowing limit of 5 books."\<close>
  | InvalidBookId             \<comment> \<open>"Invalid book id."\<close>
  | NoActiveLoan              \<comment> \<open>"No active borrow for this patron and book."\<close>
  | Added pystr              \<comment> \<open>the title, in the confirmation\<close>
  | Borrowed pystr int       \<comment> \<open>the title and the date of the due date\<close>
  | Returned pystr           \<comment> \<open>the title\<close>

fun is_success :: "reply \<Rightarrow> bool" where
  "is_success (Added _) = True"
| "is_success (Borrowed _ _) = True"
| "is_success (Returned _) = True"
| "is_success _ = False"

section \<open>Catalog admission\<close>

text \<open>\<open>(x or "").strip()\<close>: a true value that is not a string has no \<open>strip\<close>.\<close>

definition or_empty_strip :: "pyval \<Rightarrow> py_exn + pystr" where
  "or_empty_strip x =
     (if truthy x
      then (case x of PStr s \<Rightarrow> Inr (strip s) | _ \<Rightarrow> Inl AttributeError)
      else Inr (strip []))"

definition add_book_to_catalog ::
  "io \<Rightarrow> pyval \<Rightarrow> pyval \<Rightarrow> pyval \<Rightarrow> pyval \<Rightarrow> store \<Rightarrow> py_exn + reply \<times> store" where
  "add_book_to_catalog env title author isbn total_copies s =
     (case or_empty_strip title of Inl e \<Rightarrow> Inl e | Inr t \<Rightarrow>
      case or_empty_strip author of Inl e \<Rightarrow> Inl e | Inr a \<Rightarrow>
      case or_empty_strip isbn of Inl e \<Rightarrow> Inl e | Inr i \<Rightarrow>
      Inr (if t = [] then (ValidationError TitleRequired, s)
           else if length t > 200 then (ValidationError TitleTooLong, s)
           else if a = [] then (ValidationError AuthorRequired, s)
           else if length a > 100 then (ValidationError AuthorTooLong, s)
           else if length i \<noteq> 13 \<or> \<not> isdigit i then (ValidationError IsbnNot13Digits, s)
           else (case as_int total_copies of
                  None \<Rightarrow> (ValidationError CopiesNotPositive, s)
                | Some c \<Rightarrow>
                    if c \<le> 0 then (ValidationError CopiesNotPositive, s)
                    else if get_book_by_isbn s i \<noteq> None then (DuplicateIsbnError, s)
                    else (case insert_book (insert_book_ok env) t a i c c s of
                            (success, s') \<Rightarrow>
                              if success then (Added t, s')
                              else (PersistenceError AddingBook, s')))))"

section \<open>Borrowing and returning\<close>

text \<open>
  \<open>not patron_id or not patron_id.isdigit() or len(patron_id) != 6\<close>, the guard shared by
  the three operations below: \<open>Inr None\<close> when the guard rejects the id, \<open>Inr (Some p)\<close>
  when \<open>p\<close> passes, and the exception of calling \<open>isdigit\<close> on a true value that is not a
  string.
\<close>

fun patron_check :: "pyval \<Rightarrow> py_exn + pystr option" where
  "patron_check (PStr p) =
     Inr (if p = [] \<or> \<not> isdigit p \<or> length p \<noteq> 6 then None else Some p)"
| "patron_check x = (if truthy x then Inl AttributeError else Inr None)"

definition borrow_book_by_patron ::
  "io \<Rightarrow> datetime \<Rightarrow> pyval \<Rightarrow> int \<Rightarrow> store \<Rightarrow> py_exn + reply \<times> store" where
  "borrow_book_by_patron env now patron_id book_id s =
     (case patron_check patron_id of
        Inl e \<Rightarrow> Inl e
      | Inr None \<Rightarrow> Inr (InvalidPatronId, s)
      | Inr (Some p) \<Rightarrow>
          Inr (case get_book_by_id s book_id of
                 None \<Rightarrow> (BookNotFound, s)
               | Some bk \<Rightarrow>
                   if b_available_copies bk \<le> 0 then (BookUnavailable, s)
                   else if get_patron_borrow_count s p \<ge> 5 then (BorrowLimitExceeded, s)
                   else
                     let borrow_date = now; due_date = plus_days borrow_date 14 in
                     (case insert_borrow_record (insert_borrow_record_ok env)
                             p book_id borrow_date due_date s of
                        (borrow_success, s1) \<Rightarrow>
                          if \<not> borrow_success
                          then (PersistenceError CreatingBorrowRecord, s1)
                          else
                            (case update_book_availability (update_availability_ok env)
                                    book_id (- 1) s1 of
                               (availability_success, s2) \<Rightarrow>
                                 if \<not> availability_success
                                 then (PersistenceError UpdatingBookAvailability, s2)
                                 else (Borrowed (b_title bk) (day due_date), s2)))))"

definition return_book_by_patron ::
  "io \<Rightarrow> datetime \<Rightarrow> pyval \<Rightarrow> pyval \<Rightarrow> store \<Rightarrow> py_exn + reply \<times> store" where
  "return_book_by_patron env now patron_id book_id s =
     (case patron_check patron_id of
        Inl e \<Rightarrow> Inl e
      | Inr None \<Rightarrow> Inr (InvalidPatronId, s)
      | Inr (Some p) \<Rightarrow>
          Inr (case py_int book_id of
                 None \<Rightarrow> (InvalidBookId, s)
               | Some n \<Rightarrow>
                   (case get_book_by_id s n of
                      None \<Rightarrow> (BookNotFound, s)
                    | Some bk \<Rightarrow>
                        (case update_borrow_record_return_date (update_return_date_ok env)
                                p n now s of
                           (updated, s1) \<Rightarrow>
                             if \<not> updated then (NoActiveLoan, s1)
                             else
                               (case update_book_availability (update_availability_ok env)
                                       n 1 s1 of
                                  (incremented, s2) \<Rightarrow>
                                    if \<not> incremented
                                    then (PersistenceError UpdatingAvailability, s2)
                                    else (Returned (b_title bk), s2))))))"

section \<open>Late fees\<close>

datatype status = on_time | late | no_active_loan

text \<open>
  Money is an exact rational number of dollars. The amounts the service adds up are
  multiples of 0.50 up to 15.00, which binary floating point represents exactly.
  \<open>round2\<close> is \<open>round(x, 2)\<close>, to the nearest hundredth.
\<close>

record fee_report =
  fee_amount :: rat
  days_overdue :: int
  status :: status

definition round2 :: "rat \<Rightarrow> rat" where
  "round2 x = of_int (round (x * 100)) / 100"

definition no_loan :: fee_report where
  "no_loan = \<lparr>fee_amount = 0, days_overdue = 0, status = no_active_loan\<rparr>"

definition tiered_fee :: "int \<Rightarrow> rat" where
  "tiered_fee d =
     (let tier1_days = min d 7;
          tier2_days = max (d - 7) 0;
          fee = of_int tier1_days * (1 / 2) + of_int tier2_days * 1;
          fee_capped = min 15 fee
      in round2 (fee_capped + 1 / 10 ^ 9))"

text \<open>
  The result for the row that the query has fetched: \<open>None\<close> is no row. The due date is
  read with \<open>datetime.fromisoformat\<close> inside \<open>try/except\<close>.
\<close>

definition fee_of_row :: "datetime \<Rightarrow> borrow_record option \<Rightarrow> fee_report" where
  "fee_of_row today r =
     (case r of
        None \<Rightarrow> no_loan
      | Some row \<Rightarrow>
          (case r_due_date row of
             None \<Rightarrow> no_loan
           | Some due_dt \<Rightarrow>
               let d = max 0 (day today - day due_dt) in
               if d = 0
               then \<lparr>fee_amount = 0, days_overdue = 0, status = on_time\<rparr>
               else \<lparr>fee_amount = tiered_fee d, days_overdue = d, status = late\<rparr>))"

text \<open>
  The query is \<open>conn.execute(...).fetchone()\<close> on a connection from
  \<open>get_db_connection()\<close>, with the parameters \<open>(patron_id, book_id)\<close>. Nothing catches
  what it raises: a failure to connect or to prepare the statement, the \<open>OverflowError\<close>
  of binding a book id outside 64 bits, a failure while the statement runs.
\<close>

definition calculate_late_fee_for_book ::
  "io \<Rightarrow> datetime \<Rightarrow> pyval \<Rightarrow> pyval \<Rightarrow> store \<Rightarrow> py_exn + fee_report" where
  "calculate_late_fee_for_book env today patron_id book_id s =
     (case patron_check patron_id of
        Inl e \<Rightarrow> Inl e
      | Inr None \<Rightarrow> Inr no_loan
      | Inr (Some p) \<Rightarrow>
          (case py_int book_id of
             None \<Rightarrow> Inr no_loan
           | Some n \<Rightarrow>
               if \<not> fee_prepare_ok env then Inl DatabaseError
               else if \<not> in_int64 n then Inl OverflowError
               else if \<not> fee_step_ok env then Inl DatabaseError
               else Inr (fee_of_row today (active_borrow s p n))))"

section \<open>Sequences of operations\<close>

datatype op =
    Add io pyval pyval pyval pyval
  | Borrow io datetime pyval int
  | Return io datetime pyval pyval

text \<open>One call: its reply or the exception it raises, and the store it leaves. A call
  that raises does so before any write.\<close>

definition outcome :: "store \<Rightarrow> py_exn + reply \<times> store \<Rightarrow> (py_exn + reply) \<times> store" where
  "outcome s res = (case res of Inl e \<Rightarrow> (Inl e, s) | Inr (r, s') \<Rightarrow> (Inr r, s'))"

fun exec :: "store \<Rightarrow> op \<Rightarrow> (py_exn + reply) \<times> store" where
  "exec s (Add env t a i c) = outcome s (add_book_to_catalog env t a i c s)"
| "exec s (Borrow env now p n) = outcome s (borrow_book_by_patron env now p n s)"
| "exec s (Return env now p n) = outcome s (return_book_by_patron env now p n s)"

fun run :: "store \<Rightarrow> op list \<Rightarrow> store" where
  "run s [] = s"
| "run s (x # xs) = run (snd (exec s x)) xs"

fun replies :: "store \<Rightarrow> op list \<Rightarrow> (py_exn + reply) list" where
  "replies s [] = []"
| "replies s (x # xs) = fst (exec s x) # replies (snd (exec s x)) xs"

definition available :: "store \<Rightarrow> int \<Rightarrow> int option" where
  "available s n = map_option b_available_copies (get_book_by_id s n)"

text \<open>A borrow followed by the return of the same patron and book; \<open>None\<close> unless both
  succeed. \<open>rounds\<close> repeats it, once for each element of the list.\<close>

fun borrow_then_return ::
  "io \<times> datetime \<times> io \<times> datetime \<Rightarrow> pyval \<Rightarrow> int \<Rightarrow> store \<Rightarrow> store option" where
  "borrow_then_return (env1, t1, env2, t2) p n s =
     (case borrow_book_by_patron env1 t1 p n s of
        Inl e \<Rightarrow> None
      | Inr (r1, s1) \<Rightarrow>
          if \<not> is_success r1 then None
          else (case return_book_by_patron env2 t2 p (PInt n) s1 of
                  Inl e \<Rightarrow> None
                | Inr (r2, s2) \<Rightarrow> if is_success r2 then Some s2 else None))"

fun rounds ::
  "(io \<times> datetime \<times> io \<times> datetime) list \<Rightarrow> pyval \<Rightarrow> int \<Rightarrow> store \<Rightarrow> store option" where
  "rounds [] p n s = Some s"
| "rounds (x # xs) p n s =
     (case borrow_then_return x p n s of None \<Rightarrow> None | Some s' \<Rightarrow> rounds xs p n s')"

section \<open>The specification's vocabulary\<close>

text \<open>An argument that is a string or \<open>None\<close>: what the string parameters of the
  service are declared to take, with the \<open>None\<close> that its guards allow for.\<close>

fun str_or_none :: "pyval \<Rightarrow> bool" where
  "str_or_none PNone = True"
| "str_or_none (PStr s) = True"
| "str_or_none _ = False"

text \<open>A patron id as the specification words it: exactly 6 numeric digits. A digit is a
  character that \<open>str.isdigit\<close> accepts: the digits 0 to 9 and the other digit characters
  of Unicode, such as the superscript two (U+00B2).\<close>

fun six_digits :: "pyval \<Rightarrow> bool" where
  "six_digits (PStr p) = (length p = 6 \<and> list_all is_digit p)"
| "six_digits _ = False"

text \<open>The field rules of catalog admission as the specification words them, on the
  trimmed fields: title required, at most 200 characters; author required, at most 100
  characters; isbn exactly 13 numeric characters, digits as above; total copies a positive
  integer.\<close>

definition fields_ok :: "pystr \<Rightarrow> pystr \<Rightarrow> pystr \<Rightarrow> bool" where
  "fields_ok t a i =
     (t \<noteq> [] \<and> length t \<le> 200 \<and> a \<noteq> [] \<and> length a \<le> 100
      \<and> length i = 13 \<and> list_all is_digit i)"

definition copies_ok :: "pyval \<Rightarrow> bool" where
  "copies_ok c = (case as_int c of None \<Rightarrow> False | Some n \<Rightarrow> 0 < n)"


text \<open>The fee of the specification: min(15.00, 0.50 * min(d, 7) + 1.00 * max(d - 7, 0)),
  rounded to 2 decimal places.\<close>

definition spec_fee :: "int \<Rightarrow> rat" where
  "spec_fee d = round2 (min 15 (1 / 2 * of_int (min d 7) + 1 * of_int (max (d - 7) 0)))"

section \<open>Example stores\<close>

definition noon :: "int \<Rightarrow> datetime" where
  "noon d = \<lparr>day = d, micros = 43200000000\<rparr>"

text \<open>A catalog holding one title, one copy.\<close>

definition orwell_catalog :: store where
  "orwell_catalog =
     run empty_store
       [Add all_ok (PStr (str ''1984'')) (PStr (str ''George Orwell'')) (PStr (str ''9999999999999'')) (PInt 1)]"

text \<open>Five copies of one title, all five out with the same patron.\<close>

definition busy_store :: store where
  "busy_store =
     \<lparr>books = [\<lparr>b_id = 1, b_title = str ''Dune'', b_author = str ''Frank Herbert'',
                b_isbn = str ''9780441013593'', b_total_copies = 5, b_available_copies = 0\<rparr>],
      borrows = map (\<lambda>k. \<lparr>r_id = k, r_patron_id = str ''123456'', r_book_id = 1,
                            r_borrow_date = noon (99 + k),
                            r_due_date = Some (noon (113 + k)), r_return_date = None\<rparr>)
                  [1, 2, 3, 4, 5]\<rparr>"

text \<open>Storage failures of a borrow: the record insertion fails, or the record is inserted
  and the availability update fails.\<close>

definition insert_fails :: io where
  "insert_fails = all_ok\<lparr>insert_borrow_record_ok := False\<rparr>"

definition decrement_fails :: io where
  "decrement_fails = all_ok\<lparr>update_availability_ok := False\<rparr>"

text \<open>The one-title catalog with a loan recorded and the copy still counted as
  available.\<close>

definition half_borrowed :: store where
  "half_borrowed =
     \<lparr>books = [\<lparr>b_id = 1, b_title = str ''1984'', b_author = str ''George Orwell'',
                b_isbn = str ''9999999999999'', b_total_copies = 1, b_available_copies = 1\<rparr>],
      borrows = [\<lparr>r_id = 1, r_patron_id = str ''123456'', r_book_id = 1,
                  r_borrow_date = noon 100, r_due_date = Some (noon 114),
                  r_return_date = None\<rparr>]\<rparr>"

text \<open>A book is added, a borrow of it loses its availability update, and the loan is
  returned.\<close>

definition over_returned_trace :: "op list" where
  "over_returned_trace =
     [Add all_ok (PStr (str ''1984'')) (PStr (str ''George Orwell'')) (PStr (str ''9999999999999'')) (PInt 1),
      Borrow decrement_fails (noon 100) (PStr (str ''123456'')) 1,
      Return all_ok (noon 101) (PStr (str ''123456'')) (PInt 1)]"

text \<open>The one-title catalog after its copy went out and came back twice.\<close>

definition twice_lent :: store where
  "twice_lent =
     \<lparr>books = [\<lparr>b_id = 1, b_title = str ''1984'', b_author = str ''George Orwell'',
                b_isbn = str ''9999999999999'', b_total_copies = 1, b_available_copies = 1\<rparr>],
      borrows = [\<lparr>r_id = 1, r_patron_id = str ''123456'', r_book_id = 1,
                  r_borrow_date = noon 100, r_due_date = Some (noon 114),
                  r_return_date = Some (noon 103)\<rparr>,
                 \<lparr>r_id = 2, r_patron_id = str ''123456'', r_book_id = 1,
                  r_borrow_date = noon 105, r_due_date = Some (noon 119),
                  r_return_date = Some (noon 120)\<rparr>]\<rparr>"

text \<open>Two copies of one title, both out with the same patron, borrowed three days
  apart.\<close>

definition two_loans :: store where
  "two_loans =
     run empty_store
       [Add all_ok (PStr (str ''Dune'')) (PStr (str ''Frank Herbert'')) (PStr (str ''9780441013593'')) (PInt 2),
        Borrow all_ok (noon 100) (PStr (str ''123456'')) 1,
        Borrow all_ok (noon 103) (PStr (str ''123456'')) 1]"

section \<open>The availability invariant\<close>

text \<open>The number of active loans of a book, over all patrons.\<close>

definition active_on :: "store \<Rightarrow> int \<Rightarrow> int" where
  "active_on s n =
     int (length (filter (\<lambda>r. r_book_id r = n \<and> r_return_date r = None) (borrows s)))"

text \<open>
  What the operations keep true of a store when no availability decrement is lost: book
  ids are unique, every borrow record is of a catalogued book, and for every book the
  available copies are not negative and, together with its active loans, do not exceed
  the total copies.
\<close>

definition consistent :: "store \<Rightarrow> bool" where
  "consistent s \<longleftrightarrow>
     distinct (map b_id (books s))
     \<and> (\<forall>r\<in>set (borrows s). r_book_id r \<in> b_id ` set (books s))
     \<and> (\<forall>b\<in>set (books s).
           0 \<le> b_available_copies b
           \<and> b_available_copies b + active_on s (b_id b) \<le> b_total_copies b)"

text \<open>Two copies of one title, one of them out.\<close>

definition one_out_trace :: "op list" where
  "one_out_trace =
     [Add all_ok (PStr (str ''Dune'')) (PStr (str ''Frank Herbert'')) (PStr (str ''9780441013593'')) (PInt 2),
      Borrow all_ok (noon 100) (PStr (str ''123456'')) 1]"

definition one_out :: store where
  "one_out = run empty_store one_out_trace"

section \<open>Evaluation on concrete values\<close>

lemmas text_eval =
  str_def is_space_def is_digit_def space_ranges_def digit_ranges_def decimal_ranges_def
  decimal_def is_decimal_def is_int_space_def int_strip_def isdigit_def strip_def
  or_empty_strip_def unsigned_int_def dec_value_def digit_val_def in_int64_def

lemmas store_eval =
  text_eval get_book_by_id_def get_book_by_isbn_def get_patron_borrow_count_def
  insert_book_def insert_borrow_record_def update_borrow_record_return_date_def
  update_book_availability_def active_borrow_def active_for_def all_ok_def plus_days_def
  noon_def empty_store_def outcome_def

lemmas service_eval =
  add_book_to_catalog_def borrow_book_by_patron_def return_book_by_patron_def
  calculate_late_fee_for_book_def fee_of_row_def

section \<open>Catalog admission: properties\<close>

lemma or_empty_strip_None: "or_empty_strip PNone = Inr []"
  by (simp add: or_empty_strip_def strip_def)

lemma or_empty_strip_total:
  "str_or_none x \<Longrightarrow> \<exists>t. or_empty_strip x = Inr t"
  by (cases x) (simp_all add: or_empty_strip_def)

lemma add_book_stripped:
  assumes "or_empty_strip title = Inr t" and "or_empty_strip author = Inr a"
    and "or_empty_strip isbn = Inr i"
  shows "add_book_to_catalog env title author isbn total_copies s =
     Inr (if t = [] then (ValidationError TitleRequired, s)
           else if length t > 200 then (ValidationError TitleTooLong, s)
           else if a = [] then (ValidationError AuthorRequired, s)
           else if length a > 100 then (ValidationError AuthorTooLong, s)
           else if length i \<noteq> 13 \<or> \<not> isdigit i then (ValidationError IsbnNot13Digits, s)
           else (case as_int total_copies of
                  None \<Rightarrow> (ValidationError CopiesNotPositive, s)
                | Some c \<Rightarrow>
                    if c \<le> 0 then (ValidationError CopiesNotPositive, s)
                    else if get_book_by_isbn s i \<noteq> None then (DuplicateIsbnError, s)
                    else (case insert_book (insert_book_ok env) t a i c c s of
                            (success, s') \<Rightarrow>
                              if success then (Added t, s')
                              else (PersistenceError AddingBook, s'))))"
  by (simp only: add_book_to_catalog_def assms sum.case)

lemma add_book_title_required:
  assumes "or_empty_strip title = Inr t" and "or_empty_strip author = Inr a"
    and "or_empty_strip isbn = Inr i" and "t = []"
  shows "add_book_to_catalog env title author isbn total_copies s
           = Inr (ValidationError TitleRequired, s)"
  using assms(4) by (simp add: add_book_stripped [OF assms(1-3)])

lemma add_book_title_too_long:
  assumes "or_empty_strip title = Inr t" and "or_empty_strip author = Inr a"
    and "or_empty_strip isbn = Inr i" and "t \<noteq> []" and "length t > 200"
  shows "add_book_to_catalog env title author isbn total_copies s
           = Inr (ValidationError TitleTooLong, s)"
  using assms(4,5) by (simp add: add_book_stripped [OF assms(1-3)])

lemma add_book_author_required:
  assumes "or_empty_strip title = Inr t" and "or_empty_strip author = Inr a"
    and "or_empty_strip isbn = Inr i" and "t \<noteq> []" and "length t \<le> 200" and "a = []"
  shows "add_book_to_catalog env title author isbn total_copies s
           = Inr (ValidationError AuthorRequired, s)"
  using assms(4-) by (simp add: add_book_stripped [OF assms(1-3)])

lemma add_book_author_too_long:
  assumes "or_empty_strip title = Inr t" and "or_empty_strip author = Inr a"
    and "or_empty_strip isbn = Inr i" and "t \<noteq> []" and "length t \<le> 200"
    and "a \<noteq> []" and "length a > 100"
  shows "add_book_to_catalog env title author isbn total_copies s
           = Inr (ValidationError AuthorTooLong, s)"
  using assms(4-) by (simp add: add_book_stripped [OF assms(1-3)])

lemma add_book_isbn_invalid:
  assumes "or_empty_strip title = Inr t" and "or_empty_strip author = Inr a"
    and "or_empty_strip isbn = Inr i" and "t \<noteq> []" and "length t \<le> 200"
    and "a \<noteq> []" and "length a \<le> 100" and "length i \<noteq> 13 \<or> \<not> isdigit i"
  shows "add_book_to_catalog env title author isbn total_copies s
           = Inr (ValidationError IsbnNot13Digits, s)"
  using assms(4-) by (simp add: add_book_stripped [OF assms(1-3)])

lemma add_book_fields_ok:
  assumes "or_empty_strip title = Inr t" and "or_empty_strip author = Inr a"
    and "or_empty_strip isbn = Inr i" and "fields_ok t a i"
  shows "add_book_to_catalog env title author isbn total_copies s =
     Inr (case as_int total_copies of
                  None \<Rightarrow> (ValidationError CopiesNotPositive, s)
                | Some c \<Rightarrow>
                    if c \<le> 0 then (ValidationError CopiesNotPositive, s)
                    else if get_book_by_isbn s i \<noteq> None then (DuplicateIsbnError, s)
                    else (case insert_book (insert_book_ok env) t a i c c s of
                            (success, s') \<Rightarrow>
                              if success then (Added t, s')
                              else (PersistenceError AddingBook, s')))"
proof -
  have f: "t = [] \<longleftrightarrow> False" "length t > 200 \<longleftrightarrow> False" "a = [] \<longleftrightarrow> False"
    "length a > 100 \<longleftrightarrow> False" "length i \<noteq> 13 \<or> \<not> isdigit i \<longleftrightarrow> False"
    using assms(4) by (auto simp add: fields_ok_def isdigit_def)
  show ?thesis
    unfolding add_book_stripped [OF assms(1-3)] by (simp only: f if_False)
qed


text \<open>
  Claim C9. When title, author or isbn is passed as \<open>None\<close> (the other two being strings
  or \<open>None\<close>), \<open>add_book_to_catalog\<close> does not raise: \<open>None\<close> is read as the empty
  string, and the call returns a validation failure of one of the three fields with the
  store untouched; a \<open>None\<close> title gives "Title is required.".
\<close>
theorem add_book_none_is_validation_failure:
  assumes "str_or_none title" and "str_or_none author" and "str_or_none isbn"
    and "title = PNone \<or> author = PNone \<or> isbn = PNone"
  shows "\<exists>v. add_book_to_catalog env title author isbn total_copies s
               = Inr (ValidationError v, s)
             \<and> v \<noteq> CopiesNotPositive
             \<and> (title = PNone \<longrightarrow> v = TitleRequired)"
proof -
  obtain t where t: "or_empty_strip title = Inr t"
    using or_empty_strip_total [OF assms(1)] ..
  obtain a where a: "or_empty_strip author = Inr a"
    using or_empty_strip_total [OF assms(2)] ..
  obtain i where i: "or_empty_strip isbn = Inr i"
    using or_empty_strip_total [OF assms(3)] ..
  note s = t a i
  have e: "t = [] \<or> a = [] \<or> i = []"
    using assms(4) s by (auto simp: or_empty_strip_None)
  have tn: "title = PNone \<Longrightarrow> t = []"
    using s by (simp add: or_empty_strip_None)
  let ?r = "add_book_to_catalog env title author isbn total_copies s"
  consider (t0) "t = []" | (tl) "t \<noteq> []" "length t > 200"
    | (a0) "t \<noteq> []" "length t \<le> 200" "a = []"
    | (al) "t \<noteq> []" "length t \<le> 200" "a \<noteq> []" "length a > 100"
    | (i0) "t \<noteq> []" "length t \<le> 200" "a \<noteq> []" "length a \<le> 100" "i = []"
    using e by linarith
  then show ?thesis
  proof cases
    case t0
    have "?r = Inr (ValidationError TitleRequired, s)"
      by (rule add_book_title_required [OF s t0])
    then show ?thesis by simp
  next
    case tl
    have "?r = Inr (ValidationError TitleTooLong, s)"
      by (rule add_book_title_too_long [OF s tl])
    moreover have "title \<noteq> PNone" using tn tl by blast
    ultimately show ?thesis by simp
  next
    case a0
    have "?r = Inr (ValidationError AuthorRequired, s)"
      by (rule add_book_author_required [OF s a0])
    moreover have "title \<noteq> PNone" using tn a0 by blast
    ultimately show ?thesis by simp
  next
    case al
    have "?r = Inr (ValidationError AuthorTooLong, s)"
      by (rule add_book_author_too_long [OF s al])
    moreover have "title \<noteq> PNone" using tn al by blast
    ultimately show ?thesis by simp
  next
    case i0
    have "length i \<noteq> 13 \<or> \<not> isdigit i" using i0(5) by simp
    then have "?r = Inr (ValidationError IsbnNot13Digits, s)"
      by (rule add_book_isbn_invalid [OF s i0(1-4)])
    moreover have "title \<noteq> PNone" using tn i0 by blast
    ultimately show ?thesis by simp
  qed
qed

theorem add_book_none_is_validation_failure_witness:
  "str_or_none PNone \<and> str_or_none (PStr (str ''Ada'')) \<and> str_or_none PNone
   \<and> (PNone = PNone \<or> PStr (str ''Ada'') = PNone \<or> PNone = PNone)
   \<and> (\<exists>v. add_book_to_catalog all_ok PNone (PStr (str ''Ada'')) PNone (PInt 3) empty_store
               = Inr (ValidationError v, empty_store)
             \<and> v \<noteq> CopiesNotPositive
             \<and> (PNone = PNone \<longrightarrow> v = TitleRequired))"
  using add_book_none_is_validation_failure
          [of PNone "PStr (str ''Ada'')" PNone all_ok "PInt 3" empty_store]
  by simp

text \<open>
  Claim C10. With a valid title, author and isbn, an isbn that is not stored yet and a
  write that succeeds, \<open>add_book_to_catalog\<close> accepts \<open>True\<close> as \<open>total_copies\<close>: the
  call succeeds and the new book has \<open>total_copies = available_copies = 1\<close>.
\<close>
theorem add_book_accepts_True:
  assumes "or_empty_strip title = Inr t" and "or_empty_strip author = Inr a"
    and "or_empty_strip isbn = Inr i" and "fields_ok t a i"
    and "get_book_by_isbn s i = None" and "insert_book_ok env"
  shows "add_book_to_catalog env title author isbn (PBool True) s =
           Inr (Added t,
                s\<lparr>books := books s @
                   [\<lparr>b_id = max_id (map b_id (books s)) + 1, b_title = t, b_author = a,
                     b_isbn = i, b_total_copies = 1, b_available_copies = 1\<rparr>]\<rparr>)"
  unfolding add_book_fields_ok [OF assms(1-4)]
  using assms(5,6) by (simp add: insert_book_def)

lemma strip_examples:
  "or_empty_strip (PStr (str ''Clean Code'')) = Inr (str ''Clean Code'')"
  "or_empty_strip (PStr (str '' Robert Martin '')) = Inr (str ''Robert Martin'')"
  "or_empty_strip (PStr (str ''9780132350884'')) = Inr (str ''9780132350884'')"
  by (simp_all add: text_eval)

theorem add_book_accepts_True_witness:
  "or_empty_strip (PStr (str ''Clean Code'')) = Inr (str ''Clean Code'')
   \<and> or_empty_strip (PStr (str '' Robert Martin '')) = Inr (str ''Robert Martin'')
   \<and> or_empty_strip (PStr (str ''9780132350884'')) = Inr (str ''9780132350884'')
   \<and> fields_ok (str ''Clean Code'') (str ''Robert Martin'') (str ''9780132350884'')
   \<and> get_book_by_isbn empty_store (str ''9780132350884'') = None
   \<and> insert_book_ok all_ok
   \<and> add_book_to_catalog all_ok (PStr (str ''Clean Code'')) (PStr (str '' Robert Martin ''))
         (PStr (str ''9780132350884'')) (PBool True) empty_store =
       Inr (Added (str ''Clean Code''),
            \<lparr>books = [\<lparr>b_id = 1, b_title = str ''Clean Code'', b_author = str ''Robert Martin'',
                       b_isbn = str ''9780132350884'', b_total_copies = 1,
                       b_available_copies = 1\<rparr>],
             borrows = []\<rparr>)"
proof -
  have h: "fields_ok (str ''Clean Code'') (str ''Robert Martin'') (str ''9780132350884'')"
    "get_book_by_isbn empty_store (str ''9780132350884'') = None"
    "insert_book_ok all_ok"
    by (simp_all add: fields_ok_def store_eval)
  show ?thesis
    using add_book_accepts_True [OF strip_examples h] h strip_examples
    by (simp add: empty_store_def)
qed

text \<open>
  Claim C4, amended. When the trimmed isbn is the isbn of a stored book,
  \<open>add_book_to_catalog\<close> fails and leaves the store as it is: with
  \<open>DuplicateIsbnError\<close> when the trimmed title, author and isbn and the total copies
  pass validation (the isbn being 13 characters that \<open>str.isdigit\<close> accepts), and with a
  validation error otherwise.
\<close>
theorem add_book_duplicate_isbn_fails:
  assumes "or_empty_strip title = Inr t" and "or_empty_strip author = Inr a"
    and "or_empty_strip isbn = Inr i" and "get_book_by_isbn s i \<noteq> None"
  shows "\<exists>r. add_book_to_catalog env title author isbn total_copies s = Inr (r, s)
             \<and> \<not> is_success r
             \<and> (if fields_ok t a i \<and> copies_ok total_copies
                then r = DuplicateIsbnError
                else (\<exists>v. r = ValidationError v))"
proof (cases "fields_ok t a i")
  case True
  note eq = add_book_fields_ok [OF assms(1-3) True]
  show ?thesis
  proof (cases "as_int total_copies")
    case None
    then show ?thesis using True by (simp add: eq copies_ok_def)
  next
    case (Some c)
    then show ?thesis using True assms(4) by (simp add: eq copies_ok_def)
  qed
next
  case False
  let ?r = "add_book_to_catalog env title author isbn total_copies s"
  consider (t0) "t = []" | (tl) "t \<noteq> []" "length t > 200"
    | (a0) "t \<noteq> []" "length t \<le> 200" "a = []"
    | (al) "t \<noteq> []" "length t \<le> 200" "a \<noteq> []" "length a > 100"
    | (i0) "t \<noteq> []" "length t \<le> 200" "a \<noteq> []" "length a \<le> 100"
        "length i \<noteq> 13 \<or> \<not> isdigit i"
    using False unfolding fields_ok_def isdigit_def by fastforce
  then show ?thesis
  proof cases
    case t0
    have "?r = Inr (ValidationError TitleRequired, s)"
      by (rule add_book_title_required [OF assms(1-3) t0])
    then show ?thesis using False by simp
  next
    case tl
    have "?r = Inr (ValidationError TitleTooLong, s)"
      by (rule add_book_title_too_long [OF assms(1-3) tl])
    then show ?thesis using False by simp
  next
    case a0
    have "?r = Inr (ValidationError AuthorRequired, s)"
      by (rule add_book_author_required [OF assms(1-3) a0])
    then show ?thesis using False by simp
  next
    case al
    have "?r = Inr (ValidationError AuthorTooLong, s)"
      by (rule add_book_author_too_long [OF assms(1-3) al])
    then show ?thesis using False by simp
  next
    case i0
    have "?r = Inr (ValidationError IsbnNot13Digits, s)"
      by (rule add_book_isbn_invalid [OF assms(1-3) i0])
    then show ?thesis using False by simp
  qed
qed

lemma orwell_catalog_eq:
  "orwell_catalog =
     \<lparr>books = [\<lparr>b_id = 1, b_title = str ''1984'', b_author = str ''George Orwell'',
                b_isbn = str ''9999999999999'', b_total_copies = 1, b_available_copies = 1\<rparr>],
      borrows = []\<rparr>"
  by (simp add: orwell_catalog_def add_book_to_catalog_def store_eval)

text \<open>
  Claim C4 as stated fails: validation comes before the duplicate check, so a stored
  isbn with an empty title is answered with "Title is required.".
\<close>
theorem add_book_duplicate_isbn_counterexample:
  "map b_isbn (books orwell_catalog) = [(str ''9999999999999'')]
   \<and> add_book_to_catalog all_ok (PStr (str '''')) (PStr (str ''George Orwell'')) (PStr (str ''9999999999999''))
         (PInt 1) orwell_catalog
       = Inr (ValidationError TitleRequired, orwell_catalog)"
  by (simp add: orwell_catalog_eq add_book_to_catalog_def text_eval)

lemma orwell_examples:
  "or_empty_strip (PStr (str ''Animal Farm'')) = Inr (str ''Animal Farm'')"
  "or_empty_strip (PStr (str ''George Orwell'')) = Inr (str ''George Orwell'')"
  "or_empty_strip (PStr (str ''9999999999999'')) = Inr (str ''9999999999999'')"
  "get_book_by_isbn orwell_catalog (str ''9999999999999'') \<noteq> None"
  by (simp_all add: orwell_catalog_eq store_eval)

lemma orwell_fields:
  "fields_ok (str ''Animal Farm'') (str ''George Orwell'') (str ''9999999999999'')" "copies_ok (PInt 1)"
  by (simp_all add: fields_ok_def copies_ok_def text_eval)

theorem add_book_duplicate_isbn_fails_witness:
  "or_empty_strip (PStr (str ''Animal Farm'')) = Inr (str ''Animal Farm'')
   \<and> or_empty_strip (PStr (str ''George Orwell'')) = Inr (str ''George Orwell'')
   \<and> or_empty_strip (PStr (str ''9999999999999'')) = Inr (str ''9999999999999'')
   \<and> get_book_by_isbn orwell_catalog (str ''9999999999999'') \<noteq> None
   \<and> fields_ok (str ''Animal Farm'') (str ''George Orwell'') (str ''9999999999999'') \<and> copies_ok (PInt 1)
   \<and> add_book_to_catalog all_ok (PStr (str ''Animal Farm'')) (PStr (str ''George Orwell''))
         (PStr (str ''9999999999999'')) (PInt 1) orwell_catalog
       = Inr (DuplicateIsbnError, orwell_catalog)"
  using add_book_duplicate_isbn_fails [OF orwell_examples, of all_ok "PInt 1"]
    orwell_examples orwell_fields
  by auto

section \<open>Patron ids\<close>

lemma py_int_as_int: "as_int x = Some n \<Longrightarrow> py_int x = Some n"
  by (cases x) simp_all

lemma patron_check_six_digits:
  "six_digits x \<Longrightarrow> \<exists>p. x = PStr p \<and> patron_check x = Inr (Some p)"
  by (cases x) (auto simp: isdigit_def)

lemma patron_check_not_six_digits:
  "str_or_none x \<Longrightarrow> \<not> six_digits x \<Longrightarrow> patron_check x = Inr None"
  by (cases x) (auto simp: isdigit_def)

section \<open>Borrowing and returning: properties\<close>

lemma patron_check_Some:
  "patron_check x = Inr (Some p) \<Longrightarrow> x = PStr p \<and> six_digits x"
  by (cases x) (auto simp: isdigit_def split: if_splits)

lemma borrow_raises:
  "patron_check patron_id = Inl e \<Longrightarrow> borrow_book_by_patron env now patron_id book_id s = Inl e"
  by (simp add: borrow_book_by_patron_def)

lemma borrow_invalid_patron:
  "patron_check patron_id = Inr None \<Longrightarrow>
     borrow_book_by_patron env now patron_id book_id s = Inr (InvalidPatronId, s)"
  by (simp add: borrow_book_by_patron_def)

lemma borrow_book_not_found:
  "patron_check patron_id = Inr (Some p) \<Longrightarrow> get_book_by_id s book_id = None \<Longrightarrow>
     borrow_book_by_patron env now patron_id book_id s = Inr (BookNotFound, s)"
  by (simp add: borrow_book_by_patron_def)

lemma borrow_unavailable:
  "patron_check patron_id = Inr (Some p) \<Longrightarrow> get_book_by_id s book_id = Some bk \<Longrightarrow>
   b_available_copies bk \<le> 0 \<Longrightarrow>
     borrow_book_by_patron env now patron_id book_id s = Inr (BookUnavailable, s)"
  by (simp add: borrow_book_by_patron_def)

lemma borrow_limit:
  "patron_check patron_id = Inr (Some p) \<Longrightarrow> get_book_by_id s book_id = Some bk \<Longrightarrow>
   0 < b_available_copies bk \<Longrightarrow> 5 \<le> get_patron_borrow_count s p \<Longrightarrow>
     borrow_book_by_patron env now patron_id book_id s = Inr (BorrowLimitExceeded, s)"
  by (simp add: borrow_book_by_patron_def)

lemma borrow_past_checks:
  assumes "patron_check patron_id = Inr (Some p)" and "get_book_by_id s book_id = Some bk"
    and "0 < b_available_copies bk" and "get_patron_borrow_count s p < 5"
  shows "borrow_book_by_patron env now patron_id book_id s =
     Inr (if \<not> insert_borrow_record_ok env
          then (PersistenceError CreatingBorrowRecord, s)
          else if \<not> update_availability_ok env
          then (PersistenceError UpdatingBookAvailability,
                snd (insert_borrow_record True p book_id now (plus_days now 14) s))
          else (Borrowed (b_title bk) (day now + 14),
                snd (update_book_availability True book_id (- 1)
                  (snd (insert_borrow_record True p book_id now (plus_days now 14) s)))))"
  using assms
  by (simp add: borrow_book_by_patron_def insert_borrow_record_def
        update_book_availability_def plus_days_def Let_def)

lemma latest_Nil_iff: "latest rs = None \<longleftrightarrow> rs = []"
  by (cases rs) (auto split: option.splits)

lemma return_raises:
  "patron_check patron_id = Inl e \<Longrightarrow> return_book_by_patron env now patron_id book_id s = Inl e"
  by (simp add: return_book_by_patron_def)

lemma return_invalid_patron:
  "patron_check patron_id = Inr None \<Longrightarrow>
     return_book_by_patron env now patron_id book_id s = Inr (InvalidPatronId, s)"
  by (simp add: return_book_by_patron_def)

lemma return_invalid_book_id:
  "patron_check patron_id = Inr (Some p) \<Longrightarrow> py_int book_id = None \<Longrightarrow>
     return_book_by_patron env now patron_id book_id s = Inr (InvalidBookId, s)"
  by (simp add: return_book_by_patron_def)

lemma return_book_not_found:
  "patron_check patron_id = Inr (Some p) \<Longrightarrow> py_int book_id = Some n \<Longrightarrow>
   get_book_by_id s n = None \<Longrightarrow>
     return_book_by_patron env now patron_id book_id s = Inr (BookNotFound, s)"
  by (simp add: return_book_by_patron_def)

lemma return_not_updated:
  "patron_check patron_id = Inr (Some p) \<Longrightarrow> py_int book_id = Some n \<Longrightarrow>
   get_book_by_id s n = Some bk \<Longrightarrow>
   active_borrow s p n = None \<or> \<not> update_return_date_ok env \<Longrightarrow>
     return_book_by_patron env now patron_id book_id s = Inr (NoActiveLoan, s)"
  by (auto simp: return_book_by_patron_def update_borrow_record_return_date_def
        split: option.splits)

lemma return_updated:
  assumes "patron_check patron_id = Inr (Some p)" and "py_int book_id = Some n"
    and "get_book_by_id s n = Some bk" and "active_borrow s p n = Some r"
    and "update_return_date_ok env"
  shows "return_book_by_patron env now patron_id book_id s =
     Inr (if \<not> update_availability_ok env
          then (PersistenceError UpdatingAvailability,
                snd (update_borrow_record_return_date True p n now s))
          else (Returned (b_title bk),
                snd (update_book_availability True n 1
                  (snd (update_borrow_record_return_date True p n now s)))))"
  using assms
  by (simp add: return_book_by_patron_def update_borrow_record_return_date_def
        update_book_availability_def)

text \<open>
  Claim C3, amended. When \<open>borrow_book_by_patron\<close> returns a \<open>PersistenceError\<close>, the
  available copies of every book are unchanged. If the failed write is the record
  insertion, the store is left as it was; if it is the availability update, the borrow
  record inserted by this call stays in the store.
\<close>
theorem borrow_persistence_error_effect:
  assumes "borrow_book_by_patron env now patron_id book_id s = Inr (PersistenceError w, s')"
  shows "books s' = books s
         \<and> (if w = CreatingBorrowRecord then s' = s
            else w = UpdatingBookAvailability
                 \<and> (\<exists>p. patron_id = PStr p
                        \<and> borrows s' = borrows s @
                            [\<lparr>r_id = max_id (map r_id (borrows s)) + 1, r_patron_id = p,
                              r_book_id = book_id, r_borrow_date = now,
                              r_due_date = Some (plus_days now 14),
                              r_return_date = None\<rparr>]))"
proof (cases "patron_check patron_id")
  case (Inl e)
  then show ?thesis using assms by (simp add: borrow_raises)
next
  case (Inr po)
  show ?thesis
  proof (cases po)
    case None
    then show ?thesis using assms Inr by (simp add: borrow_invalid_patron)
  next
    case (Some p)
    then have pc: "patron_check patron_id = Inr (Some p)" using Inr by simp
    have p: "patron_id = PStr p" using patron_check_Some [OF pc] by simp
    show ?thesis
    proof (cases "get_book_by_id s book_id")
      case None
      then show ?thesis using assms by (simp add: borrow_book_not_found [OF pc])
    next
      case bk: (Some bk)
      show ?thesis
      proof (cases "0 < b_available_copies bk")
        case False
        then have "b_available_copies bk \<le> 0" by simp
        then show ?thesis using assms by (simp add: borrow_unavailable [OF pc bk])
      next
        case avail: True
        show ?thesis
        proof (cases "get_patron_borrow_count s p < 5")
          case False
          then have "5 \<le> get_patron_borrow_count s p" by simp
          then show ?thesis using assms by (simp add: borrow_limit [OF pc bk avail])
        next
          case True
          show ?thesis
            using assms p unfolding borrow_past_checks [OF pc bk avail True]
            by (auto simp: insert_borrow_record_def split: if_splits)
        qed
      qed
    qed
  qed
qed

lemma borrow_insert_fails:
  "borrow_book_by_patron insert_fails (noon 100) (PStr (str ''123456'')) 1 orwell_catalog
     = Inr (PersistenceError CreatingBorrowRecord, orwell_catalog)"
  by (simp add: orwell_catalog_eq insert_fails_def borrow_book_by_patron_def store_eval)

lemma borrow_decrement_fails:
  "borrow_book_by_patron decrement_fails (noon 100) (PStr (str ''123456'')) 1 orwell_catalog
     = Inr (PersistenceError UpdatingBookAvailability, half_borrowed)"
  by (simp add: orwell_catalog_eq decrement_fails_def half_borrowed_def
        borrow_book_by_patron_def store_eval)

text \<open>
  Claim C3 as stated fails: the two writes are separate calls with no rollback, so a
  failed availability update leaves the inserted borrow record behind.
\<close>
theorem borrow_not_atomic_counterexample:
  "borrow_book_by_patron decrement_fails (noon 100) (PStr (str ''123456'')) 1 orwell_catalog
     = Inr (PersistenceError UpdatingBookAvailability, half_borrowed)
   \<and> borrows orwell_catalog = []
   \<and> map r_id (borrows half_borrowed) = [1]
   \<and> half_borrowed \<noteq> orwell_catalog"
  by (simp add: borrow_decrement_fails) (simp add: orwell_catalog_eq half_borrowed_def)

theorem borrow_persistence_error_effect_witness:
  "borrow_book_by_patron insert_fails (noon 100) (PStr (str ''123456'')) 1 orwell_catalog
     = Inr (PersistenceError CreatingBorrowRecord, orwell_catalog)
   \<and> borrow_book_by_patron decrement_fails (noon 100) (PStr (str ''123456'')) 1 orwell_catalog
     = Inr (PersistenceError UpdatingBookAvailability, half_borrowed)
   \<and> books half_borrowed = books orwell_catalog
   \<and> borrows half_borrowed = borrows orwell_catalog @
        [\<lparr>r_id = max_id (map r_id (borrows orwell_catalog)) + 1, r_patron_id = str ''123456'',
          r_book_id = 1, r_borrow_date = noon 100,
          r_due_date = Some (plus_days (noon 100) 14), r_return_date = None\<rparr>]"
  using borrow_persistence_error_effect [OF borrow_insert_fails]
    borrow_persistence_error_effect [OF borrow_decrement_fails]
    borrow_insert_fails borrow_decrement_fails
  by simp





text \<open>
  Claim C7. With a valid patron id, an integer book id of an existing book and no active
  borrow record of the patron and the book, \<open>return_book_by_patron\<close> fails with
  \<open>NoActiveLoan\<close> and leaves the whole store, available copies and borrow records,
  unchanged.
\<close>
theorem return_without_active_loan:
  assumes "six_digits (PStr p)" and "as_int book_id = Some n"
    and "get_book_by_id s n \<noteq> None" and "filter (active_for p n) (borrows s) = []"
  shows "return_book_by_patron env now (PStr p) book_id s = Inr (NoActiveLoan, s)"
proof -
  have pc: "patron_check (PStr p) = Inr (Some p)"
    using patron_check_six_digits [OF assms(1)] by simp
  have n: "py_int book_id = Some n"
    by (rule py_int_as_int [OF assms(2)])
  obtain bk where bk: "get_book_by_id s n = Some bk"
    using assms(3) by auto
  have "active_borrow s p n = None"
    using assms(4) by (simp add: active_borrow_def)
  then show ?thesis
    by (simp add: return_not_updated [OF pc n bk])
qed


lemma other_patron_facts:
  "six_digits (PStr (str ''654321''))" "as_int (PInt 1) = Some 1"
  "get_book_by_id busy_store 1 \<noteq> None"
  "filter (active_for (str ''654321'') 1) (borrows busy_store) = []"
  by (simp_all add: busy_store_def store_eval)

theorem return_without_active_loan_witness:
  "six_digits (PStr (str ''654321'')) \<and> as_int (PInt 1) = Some 1
   \<and> get_book_by_id busy_store 1 \<noteq> None
   \<and> filter (active_for (str ''654321'') 1) (borrows busy_store) = []
   \<and> return_book_by_patron all_ok (noon 110) (PStr (str ''654321'')) (PInt 1) busy_store
       = Inr (NoActiveLoan, busy_store)"
  using return_without_active_loan [OF other_patron_facts, of all_ok "noon 110"]
    other_patron_facts
  by simp

section \<open>Borrow then return\<close>

lemma books_insert_borrow_record [simp]:
  "books (snd (insert_borrow_record ok p n borrowed due s)) = books s"
  by (simp add: insert_borrow_record_def)

lemma books_update_return_date [simp]:
  "books (snd (update_borrow_record_return_date ok p n now s)) = books s"
  by (simp add: update_borrow_record_return_date_def split: option.splits)

lemma borrows_update_availability [simp]:
  "borrows (snd (update_book_availability ok n d s)) = borrows s"
  by (simp add: update_book_availability_def)

lemma find_after_availability:
  "map_option b_available_copies
     (find (\<lambda>b. b_id b = n)
        (map (\<lambda>b. if b_id b = n
                   then b\<lparr>b_available_copies := b_available_copies b + d\<rparr> else b) bs))
   = map_option (\<lambda>a. a + d) (map_option b_available_copies (find (\<lambda>b. b_id b = n) bs))"
  by (induction bs) simp_all

lemma available_update_availability:
  "available (snd (update_book_availability True n d s)) n
     = map_option (\<lambda>a. a + d) (available s n)"
  by (simp add: available_def get_book_by_id_def update_book_availability_def
        find_after_availability)

lemma available_books_cong: "books s' = books s \<Longrightarrow> available s' n = available s n"
  by (simp add: available_def get_book_by_id_def)

lemma available_insert_borrow_record [simp]:
  "available (snd (insert_borrow_record ok p n borrowed due s)) m = available s m"
  by (rule available_books_cong) simp

lemma available_update_return_date [simp]:
  "available (snd (update_borrow_record_return_date ok p n now s)) m = available s m"
  by (rule available_books_cong) simp

lemma borrow_success:
  assumes "borrow_book_by_patron env now patron_id book_id s = Inr (r, s')"
    and "is_success r"
  shows "\<exists>p bk. patron_check patron_id = Inr (Some p)
           \<and> get_book_by_id s book_id = Some bk
           \<and> 0 < b_available_copies bk
           \<and> get_patron_borrow_count s p < 5
           \<and> insert_borrow_record_ok env \<and> update_availability_ok env
           \<and> r = Borrowed (b_title bk) (day now + 14)
           \<and> s' = snd (update_book_availability True book_id (- 1)
                     (snd (insert_borrow_record True p book_id now (plus_days now 14) s)))"
proof (cases "patron_check patron_id")
  case (Inl e)
  then show ?thesis using assms by (simp add: borrow_raises)
next
  case (Inr po)
  show ?thesis
  proof (cases po)
    case None
    then show ?thesis using assms Inr by (auto simp: borrow_invalid_patron)
  next
    case (Some p)
    then have pc: "patron_check patron_id = Inr (Some p)" using Inr by simp
    show ?thesis
    proof (cases "get_book_by_id s book_id")
      case None
      then show ?thesis using assms by (auto simp: borrow_book_not_found [OF pc])
    next
      case bk: (Some bk)
      show ?thesis
      proof (cases "0 < b_available_copies bk")
        case False
        then have "b_available_copies bk \<le> 0" by simp
        then show ?thesis using assms by (auto simp: borrow_unavailable [OF pc bk])
      next
        case avail: True
        show ?thesis
        proof (cases "get_patron_borrow_count s p < 5")
          case False
          then have "5 \<le> get_patron_borrow_count s p" by simp
          then show ?thesis using assms by (auto simp: borrow_limit [OF pc bk avail])
        next
          case True
          show ?thesis
            using assms pc bk avail True unfolding borrow_past_checks [OF pc bk avail True]
            by (auto split: if_splits)
        qed
      qed
    qed
  qed
qed

lemma return_success:
  assumes "return_book_by_patron env now patron_id book_id s = Inr (r, s')"
    and "is_success r"
  shows "\<exists>p n bk row. patron_check patron_id = Inr (Some p)
           \<and> py_int book_id = Some n
           \<and> get_book_by_id s n = Some bk
           \<and> active_borrow s p n = Some row
           \<and> update_return_date_ok env \<and> update_availability_ok env
           \<and> r = Returned (b_title bk)
           \<and> s' = snd (update_book_availability True n 1
                     (snd (update_borrow_record_return_date True p n now s)))"
proof (cases "patron_check patron_id")
  case (Inl e)
  then show ?thesis using assms by (simp add: return_raises)
next
  case (Inr po)
  show ?thesis
  proof (cases po)
    case None
    then show ?thesis using assms Inr by (auto simp: return_invalid_patron)
  next
    case (Some p)
    then have pc: "patron_check patron_id = Inr (Some p)" using Inr by simp
    show ?thesis
    proof (cases "py_int book_id")
      case None
      then show ?thesis using assms by (auto simp: return_invalid_book_id [OF pc])
    next
      case n: (Some n)
      show ?thesis
      proof (cases "get_book_by_id s n")
        case None
        then show ?thesis using assms by (auto simp: return_book_not_found [OF pc n])
      next
        case bk: (Some bk)
        show ?thesis
        proof (cases "active_borrow s p n = None \<or> \<not> update_return_date_ok env")
          case True
          then show ?thesis using assms by (auto simp: return_not_updated [OF pc n bk])
        next
          case False
          then obtain row where row: "active_borrow s p n = Some row"
            and ok: "update_return_date_ok env"
            by auto
          show ?thesis
            using assms pc n bk row ok unfolding return_updated [OF pc n bk row ok]
            by (auto split: if_splits)
        qed
      qed
    qed
  qed
qed

lemma borrow_then_return_available:
  assumes "borrow_then_return x patron_id book_id s = Some s'"
  shows "available s' book_id = available s book_id"
proof -
  obtain env1 t1 env2 t2 where x: "x = (env1, t1, env2, t2)"
    by (cases x) auto
  from assms x obtain r1 s1 r2 where
    b: "borrow_book_by_patron env1 t1 patron_id book_id s = Inr (r1, s1)" "is_success r1"
    and r: "return_book_by_patron env2 t2 patron_id (PInt book_id) s1 = Inr (r2, s')"
      "is_success r2"
    by (auto split: sum.splits if_splits)
  have n: "py_int (PInt book_id) = Some book_id" by simp
  have 1: "available s1 book_id = map_option (\<lambda>a. a + (- 1)) (available s book_id)"
    using borrow_success [OF b]
    by (auto simp: available_update_availability)
  have 2: "available s' book_id = map_option (\<lambda>a. a + 1) (available s1 book_id)"
    using return_success [OF r]
    by (auto simp: available_update_availability)
  show ?thesis
    unfolding 2 1 by (simp add: option.map_comp comp_def option.map_ident)
qed

text \<open>
  Claim C5. When a borrow of a patron and a book succeeds and the following return of the
  same pair succeeds, the available copies of the book are what they were before the
  borrow; the same holds after any number of such borrow-then-return rounds (\<open>rounds\<close>
  is \<open>Some\<close> exactly when every borrow and every return of the list succeeds).
\<close>
theorem borrow_return_restores_available:
  assumes "rounds xs patron_id book_id s = Some s'"
  shows "available s' book_id = available s book_id"
  using assms
proof (induction xs arbitrary: s)
  case Nil
  then show ?case by simp
next
  case (Cons x xs)
  then obtain s1 where s1: "borrow_then_return x patron_id book_id s = Some s1"
      and rest: "rounds xs patron_id book_id s1 = Some s'"
    by (auto split: option.splits)
  have "available s' book_id = available s1 book_id"
    by (rule Cons.IH [OF rest])
  also have "\<dots> = available s book_id"
    by (rule borrow_then_return_available [OF s1])
  finally show ?case .
qed

lemma two_rounds:
  "rounds [(all_ok, noon 100, all_ok, noon 103), (all_ok, noon 105, all_ok, noon 120)]
     (PStr (str ''123456'')) 1 orwell_catalog = Some twice_lent"
  by (simp add: orwell_catalog_eq twice_lent_def service_eval store_eval)

theorem borrow_return_restores_available_witness:
  "rounds [(all_ok, noon 100, all_ok, noon 103), (all_ok, noon 105, all_ok, noon 120)]
     (PStr (str ''123456'')) 1 orwell_catalog = Some twice_lent
   \<and> available twice_lent 1 = available orwell_catalog 1"
  using borrow_return_restores_available [OF two_rounds] two_rounds by simp

lemma max_id_ge: "x \<in> set xs \<Longrightarrow> x \<le> max_id xs"
  by (induction xs) auto

lemma latest_snoc:
  "\<forall>y\<in>set ys. r_id y < r_id r \<Longrightarrow> latest (ys @ [r]) = Some r"
  by (induction ys) auto

lemma availability_there_and_back:
  "map ((\<lambda>b. if b_id b = n then b\<lparr>b_available_copies := b_available_copies b + 1\<rparr> else b)
        \<circ> (\<lambda>b. if b_id b = n
                 then b\<lparr>b_available_copies := b_available_copies b + (- 1)\<rparr> else b)) bs
   = bs"
  by (induction bs) auto

lemma map_other_ids:
  "\<forall>x\<in>set xs. r_id x \<noteq> k \<Longrightarrow> map (\<lambda>x. if r_id x = k then g x else x) xs = xs"
  by (induction xs) auto

lemma find_map_availability:
  "find (\<lambda>b. b_id b = n) bs = Some bk \<Longrightarrow>
     find (\<lambda>b. b_id b = n)
       (map (\<lambda>b. if b_id b = n
                  then b\<lparr>b_available_copies := b_available_copies b + d\<rparr> else b) bs)
     = Some (bk\<lparr>b_available_copies := b_available_copies bk + d\<rparr>)"
  by (induction bs) (auto split: if_splits)

lemma find_update_availability:
  "get_book_by_id s n = Some bk \<Longrightarrow>
     get_book_by_id (snd (update_book_availability True n d s)) n
       = Some (bk\<lparr>b_available_copies := b_available_copies bk + d\<rparr>)"
  by (simp add: get_book_by_id_def update_book_availability_def find_map_availability)

lemma round_all_ok:
  assumes "six_digits (PStr p)" and "get_book_by_id s n = Some bk"
    and "0 < b_available_copies bk" and "get_patron_borrow_count s p < 5"
  shows "borrow_then_return (all_ok, t1, all_ok, t2) (PStr p) n s =
           Some (s\<lparr>borrows := borrows s @
                   [\<lparr>r_id = max_id (map r_id (borrows s)) + 1, r_patron_id = p,
                     r_book_id = n, r_borrow_date = t1,
                     r_due_date = Some (plus_days t1 14), r_return_date = Some t2\<rparr>]\<rparr>)"
proof -
  define new where "new = \<lparr>r_id = max_id (map r_id (borrows s)) + 1, r_patron_id = p,
      r_book_id = n, r_borrow_date = t1, r_due_date = Some (plus_days t1 14),
      r_return_date = None :: datetime option\<rparr>"
  define s0 where "s0 = snd (insert_borrow_record True p n t1 (plus_days t1 14) s)"
  define s1 where "s1 = snd (update_book_availability True n (- 1) s0)"
  have pc: "patron_check (PStr p) = Inr (Some p)"
    using patron_check_six_digits [OF assms(1)] by simp
  have b: "borrow_book_by_patron all_ok t1 (PStr p) n s
             = Inr (Borrowed (b_title bk) (day t1 + 14), s1)"
    unfolding borrow_past_checks [OF pc assms(2-4)] s1_def s0_def by (simp add: all_ok_def)
  have borrows1: "borrows s1 = borrows s @ [new]"
    by (simp add: s1_def s0_def new_def insert_borrow_record_def)
  have old: "\<forall>y\<in>set (borrows s). r_id y < r_id new"
  proof
    fix y assume "y \<in> set (borrows s)"
    then have "r_id y \<le> max_id (map r_id (borrows s))" by (simp add: max_id_ge)
    then show "r_id y < r_id new" by (simp add: new_def)
  qed
  have act: "active_for p n new" by (simp add: active_for_def new_def)
  have "\<forall>y\<in>set (filter (active_for p n) (borrows s)). r_id y < r_id new"
    using old by simp
  then have row: "active_borrow s1 p n = Some new"
    by (simp add: active_borrow_def borrows1 act latest_snoc)
  have bk1: "get_book_by_id s1 n
               = Some (bk\<lparr>b_available_copies := b_available_copies bk + (- 1)\<rparr>)"
    unfolding s1_def
    by (rule find_update_availability) (simp add: s0_def get_book_by_id_def assms(2) [unfolded get_book_by_id_def])
  have ids: "\<forall>x\<in>set (borrows s). r_id x \<noteq> r_id new"
    using old by fastforce
  have r: "return_book_by_patron all_ok t2 (PStr p) (PInt n) s1
             = Inr (Returned (b_title bk),
                    snd (update_book_availability True n 1
                      (snd (update_borrow_record_return_date True p n t2 s1))))"
    using return_updated [OF pc _ bk1 row, of "PInt n" all_ok t2] by (simp add: all_ok_def)
  have u: "snd (update_borrow_record_return_date True p n t2 s1)
             = s1\<lparr>borrows := borrows s @ [new\<lparr>r_return_date := Some t2\<rparr>]\<rparr>"
    by (simp add: update_borrow_record_return_date_def row borrows1 map_other_ids [OF ids])
  have s1: "s1 = s\<lparr>borrows := borrows s @ [new],
                  books := map (\<lambda>b. if b_id b = n
                     then b\<lparr>b_available_copies := b_available_copies b + (- 1)\<rparr> else b)
                     (books s)\<rparr>"
    by (simp add: s1_def s0_def new_def insert_borrow_record_def update_book_availability_def)
  have fin: "snd (update_book_availability True n 1
               (snd (update_borrow_record_return_date True p n t2 s1)))
             = s\<lparr>borrows := borrows s @ [new\<lparr>r_return_date := Some t2\<rparr>]\<rparr>"
    unfolding u unfolding s1
    by (simp add: update_book_availability_def availability_there_and_back)
  show ?thesis
    using b r by (simp add: fin new_def)
qed

lemma rounds_all_ok:
  assumes "six_digits (PStr p)" and "get_book_by_id s n = Some bk"
    and "0 < b_available_copies bk" and "get_patron_borrow_count s p < 5"
  shows "\<exists>s'. rounds (replicate k (all_ok, t1, all_ok, t2)) (PStr p) n s = Some s'"
  using assms(2,4)
proof (induction k arbitrary: s)
  case 0
  then show ?case by simp
next
  case (Suc k)
  let ?s1 = "s\<lparr>borrows := borrows s @
                   [\<lparr>r_id = max_id (map r_id (borrows s)) + 1, r_patron_id = p,
                     r_book_id = n, r_borrow_date = t1,
                     r_due_date = Some (plus_days t1 14), r_return_date = Some t2\<rparr>]\<rparr>"
  have 1: "borrow_then_return (all_ok, t1, all_ok, t2) (PStr p) n s = Some ?s1"
    by (rule round_all_ok [OF assms(1) Suc.prems(1) assms(3) Suc.prems(2)])
  have 2: "get_book_by_id ?s1 n = Some bk"
    using Suc.prems(1) by (simp add: get_book_by_id_def)
  have 3: "get_patron_borrow_count ?s1 p < 5"
    using Suc.prems(2) by (simp add: get_patron_borrow_count_def)
  show ?case
    using Suc.IH [OF 2 3] 1 by simp
qed

section \<open>Late fees: properties\<close>

lemma round_near_int: "round (of_int m + (1 / 10 ^ 7 :: rat)) = m"
  by (simp add: round_def) linarith

lemma round2_half: "round2 (of_int k / 2) = of_int k / 2"
proof -
  have "(of_int k / 2 :: rat) * 100 = of_int (50 * k)" by simp
  then show ?thesis by (simp only: round2_def round_of_int)
qed

lemma round2_half_eps: "round2 (of_int k / 2 + 1 / 10 ^ 9) = of_int k / 2"
proof -
  have "(of_int k / 2 + 1 / 10 ^ 9 :: rat) * 100 = of_int (50 * k) + 1 / 10 ^ 7"
    by (simp add: field_simps)
  then show ?thesis by (simp only: round2_def round_near_int)
qed

lemma capped_half:
  "min 15 (of_int (min d 7) * (1 / 2) + of_int (max (d - 7) 0) * 1)
     = (of_int (min 30 (min d 7 + 2 * max (d - 7) 0)) / 2 :: rat)"
  by (auto simp: min_def max_def field_simps)

lemma tiered_fee_exact:
  "tiered_fee d = min 15 (of_int (min d 7) * (1 / 2) + of_int (max (d - 7) 0) * 1)"
  unfolding tiered_fee_def Let_def capped_half by (rule round2_half_eps)

lemma spec_fee_exact:
  "spec_fee d = min 15 (of_int (min d 7) * (1 / 2) + of_int (max (d - 7) 0) * 1)"
proof -
  have "spec_fee d = round2 (min 15 (of_int (min d 7) * (1 / 2) + of_int (max (d - 7) 0) * 1))"
    by (simp add: spec_fee_def mult.commute)
  also have "\<dots> = min 15 (of_int (min d 7) * (1 / 2) + of_int (max (d - 7) 0) * 1)"
    unfolding capped_half by (rule round2_half)
  finally show ?thesis .
qed

lemma tiered_fee_spec: "tiered_fee d = spec_fee d"
  by (simp only: tiered_fee_exact spec_fee_exact)

lemma two_loans_eq:
  "two_loans =
     \<lparr>books = [\<lparr>b_id = 1, b_title = str ''Dune'', b_author = str ''Frank Herbert'',
                b_isbn = str ''9780441013593'', b_total_copies = 2, b_available_copies = 0\<rparr>],
      borrows = [\<lparr>r_id = 1, r_patron_id = str ''123456'', r_book_id = 1,
                  r_borrow_date = noon 100, r_due_date = Some (noon 114),
                  r_return_date = None\<rparr>,
                 \<lparr>r_id = 2, r_patron_id = str ''123456'', r_book_id = 1,
                  r_borrow_date = noon 103, r_due_date = Some (noon 117),
                  r_return_date = None\<rparr>]\<rparr>"
  by (simp add: two_loans_def service_eval store_eval)

lemma latest_in_set: "latest rs = Some r \<Longrightarrow> r \<in> set rs"
  by (induction rs arbitrary: r) (auto split: option.splits if_splits)

lemma active_borrow_is_active:
  "active_borrow s p n = Some row \<Longrightarrow> row \<in> set (borrows s) \<and> active_for p n row"
  using latest_in_set [of "filter (active_for p n) (borrows s)" row]
  by (simp add: active_borrow_def)

lemma active_borrow_single:
  "filter (active_for p n) (borrows s) = [row] \<Longrightarrow> active_borrow s p n = Some row"
  by (simp add: active_borrow_def)

text \<open>
  Claim C1, amended. For the most recently created active loan of a valid patron id and an
  integer book id (the row that the query of \<open>calculate_late_fee_for_book\<close> selects; the
  only active loan of the pair when there is just one), with a stored due date that
  parses, the database answering the query: when its days overdue, the calendar-day
  difference between today and the due date floored at 0, are positive, the result has
  status \<open>late\<close>, those days, and the fee
  min(15.00, 0.50 * min(d, 7) + 1.00 * max(d - 7, 0)) rounded to 2 places; when they are
  0, the result is \<open>on_time\<close> with fee 0.
\<close>
theorem late_fee_of_latest_loan:
  assumes "six_digits (PStr p)" and "as_int book_id = Some n" and "in_int64 n"
    and "fee_prepare_ok env" and "fee_step_ok env"
    and "active_borrow s p n = Some row" and "r_due_date row = Some due"
  shows "calculate_late_fee_for_book env today (PStr p) book_id s =
           Inr (if 0 < max 0 (day today - day due)
                then \<lparr>fee_amount = spec_fee (max 0 (day today - day due)),
                      days_overdue = max 0 (day today - day due), status = late\<rparr>
                else \<lparr>fee_amount = 0, days_overdue = 0, status = on_time\<rparr>)"
proof -
  have pc: "patron_check (PStr p) = Inr (Some p)"
    using patron_check_six_digits [OF assms(1)] by simp
  have n: "py_int book_id = Some n"
    by (rule py_int_as_int [OF assms(2)])
  show ?thesis
    unfolding calculate_late_fee_for_book_def pc
    by (simp add: n assms(3-7) fee_of_row_def Let_def tiered_fee_spec)
qed

lemma latest_of_busy_store:
  "six_digits (PStr (str ''123456''))" "as_int (PInt 1) = Some 1" "in_int64 1"
  "fee_prepare_ok all_ok" "fee_step_ok all_ok"
  "active_borrow busy_store (str ''123456'') 1
     = Some \<lparr>r_id = 5, r_patron_id = str ''123456'', r_book_id = 1, r_borrow_date = noon 104,
             r_due_date = Some (noon 118), r_return_date = None\<rparr>"
  "r_due_date \<lparr>r_id = 5, r_patron_id = str ''123456'', r_book_id = 1, r_borrow_date = noon 104,
             r_due_date = Some (noon 118), r_return_date = None\<rparr> = Some (noon 118)"
  by (simp_all add: busy_store_def store_eval)

lemma spec_fee_12: "spec_fee 12 = 17 / 2"
  by (simp add: spec_fee_exact)

theorem late_fee_of_latest_loan_witness:
  "six_digits (PStr (str ''123456'')) \<and> as_int (PInt 1) = Some 1 \<and> in_int64 1
   \<and> fee_prepare_ok all_ok \<and> fee_step_ok all_ok
   \<and> active_borrow busy_store (str ''123456'') 1
       = Some \<lparr>r_id = 5, r_patron_id = str ''123456'', r_book_id = 1, r_borrow_date = noon 104,
               r_due_date = Some (noon 118), r_return_date = None\<rparr>
   \<and> calculate_late_fee_for_book all_ok (noon 130) (PStr (str ''123456'')) (PInt 1) busy_store
       = Inr \<lparr>fee_amount = 17 / 2, days_overdue = 12, status = late\<rparr>
   \<and> calculate_late_fee_for_book all_ok (noon 118) (PStr (str ''123456'')) (PInt 1) busy_store
       = Inr \<lparr>fee_amount = 0, days_overdue = 0, status = on_time\<rparr>"
  using late_fee_of_latest_loan [OF latest_of_busy_store, of "noon 130"]
    late_fee_of_latest_loan [OF latest_of_busy_store, of "noon 118"]
    latest_of_busy_store
  by (simp add: noon_def spec_fee_12)

text \<open>
  Claim C1 as stated fails: a patron may hold two active loans of one book, and the fee
  is computed for the newer one only. Here the older loan is 3 days overdue and the
  answer is \<open>on_time\<close>.
\<close>
theorem late_fee_every_loan_counterexample:
  "borrows two_loans =
     [\<lparr>r_id = 1, r_patron_id = str ''123456'', r_book_id = 1, r_borrow_date = noon 100,
       r_due_date = Some (noon 114), r_return_date = None\<rparr>,
      \<lparr>r_id = 2, r_patron_id = str ''123456'', r_book_id = 1, r_borrow_date = noon 103,
       r_due_date = Some (noon 117), r_return_date = None\<rparr>]
   \<and> max 0 (day (noon 117) - day (noon 114)) = 3
   \<and> calculate_late_fee_for_book all_ok (noon 117) (PStr (str ''123456'')) (PInt 1) two_loans
       = Inr \<lparr>fee_amount = 0, days_overdue = 0, status = on_time\<rparr>"
  by (simp add: two_loans_eq calculate_late_fee_for_book_def fee_of_row_def store_eval)

section \<open>Late fees: errors and the safe default\<close>

lemma late_fee_guard_rejects:
  "patron_check patron_id = Inr None \<Longrightarrow>
     calculate_late_fee_for_book env today patron_id book_id s = Inr no_loan"
  by (simp add: calculate_late_fee_for_book_def)

lemma late_fee_unresolved:
  "patron_check patron_id = Inr (Some p) \<Longrightarrow> py_int book_id = None \<Longrightarrow>
     calculate_late_fee_for_book env today patron_id book_id s = Inr no_loan"
  by (simp add: calculate_late_fee_for_book_def)

lemma late_fee_queried:
  "patron_check patron_id = Inr (Some p) \<Longrightarrow> py_int book_id = Some n \<Longrightarrow>
     calculate_late_fee_for_book env today patron_id book_id s =
       (if \<not> fee_prepare_ok env then Inl DatabaseError
        else if \<not> in_int64 n then Inl OverflowError
        else if \<not> fee_step_ok env then Inl DatabaseError
        else Inr (fee_of_row today (active_borrow s p n)))"
  by (simp add: calculate_late_fee_for_book_def)

text \<open>
  Claim C8 as stated fails: the query of \<open>calculate_late_fee_for_book\<close> is outside any
  \<open>try\<close>, and binding the book id \<open>2 ** 63\<close> to it raises \<open>OverflowError\<close>, for a valid
  patron id and whatever the store holds.
\<close>
theorem late_fee_overflow_counterexample:
  "calculate_late_fee_for_book all_ok (noon 130) (PStr (str ''123456'')) (PInt (2 ^ 63))
     busy_store = Inl OverflowError"
  by (simp add: calculate_late_fee_for_book_def text_eval all_ok_def)

text \<open>
  Claim C8, amended. For a patron id that is a string or \<open>None\<close>:
  \<open>calculate_late_fee_for_book\<close> returns
  \<open>{fee_amount: 0.0, days_overdue: 0, status: no_active_loan}\<close>, and raises nothing,
  when the patron id is not exactly 6 characters that \<open>str.isdigit\<close> accepts, and when
  the book id cannot be resolved to an integer; and it raises nothing when the book id
  resolves to an integer of 64 bits and the database answers the query.
\<close>
theorem late_fee_safe_default:
  assumes "str_or_none patron_id"
  shows "(\<not> six_digits patron_id \<or> py_int book_id = None \<longrightarrow>
            calculate_late_fee_for_book env today patron_id book_id s = Inr no_loan)
         \<and> (py_int book_id = Some n \<and> in_int64 n \<and> fee_prepare_ok env \<and> fee_step_ok env
              \<longrightarrow> (\<exists>r. calculate_late_fee_for_book env today patron_id book_id s = Inr r))"
proof (cases "six_digits patron_id")
  case False
  have "patron_check patron_id = Inr None"
    by (rule patron_check_not_six_digits [OF assms False])
  then have "calculate_late_fee_for_book env today patron_id book_id s = Inr no_loan"
    by (rule late_fee_guard_rejects)
  then show ?thesis by simp
next
  case True
  then obtain p where p: "patron_check patron_id = Inr (Some p)"
    using patron_check_six_digits by blast
  show ?thesis
  proof (cases "py_int book_id")
    case None
    then show ?thesis by (simp add: late_fee_unresolved [OF p None])
  next
    case (Some k)
    then show ?thesis using True by (auto simp: late_fee_queried [OF p Some])
  qed
qed

lemma short_patron_id:
  "\<not> six_digits (PStr (str ''12345''))" "py_int (PStr (str ''abc'')) = None"
  "py_int (PInt 1) = Some 1" "in_int64 1" "fee_prepare_ok all_ok" "fee_step_ok all_ok"
  by (simp_all add: text_eval all_ok_def)

lemma busy_store_fee:
  "calculate_late_fee_for_book all_ok (noon 130) (PStr (str ''123456'')) (PInt 1) busy_store
     = Inr \<lparr>fee_amount = 17 / 2, days_overdue = 12, status = late\<rparr>"
  using tiered_fee_spec [of 12]
  by (simp add: busy_store_def calculate_late_fee_for_book_def fee_of_row_def store_eval
        spec_fee_12)

theorem late_fee_safe_default_witness:
  "calculate_late_fee_for_book all_ok (noon 130) (PStr (str ''123456'')) (PInt 1) busy_store
     = Inr \<lparr>fee_amount = 17 / 2, days_overdue = 12, status = late\<rparr>
   \<and> py_int (PInt 1) = Some 1 \<and> in_int64 1 \<and> fee_prepare_ok all_ok \<and> fee_step_ok all_ok
   \<and> str_or_none (PStr (str ''12345'')) \<and> \<not> six_digits (PStr (str ''12345''))
   \<and> calculate_late_fee_for_book all_ok (noon 130) (PStr (str ''12345'')) (PInt 1) busy_store
       = Inr no_loan
   \<and> str_or_none (PStr (str ''123456'')) \<and> py_int (PStr (str ''abc'')) = None
   \<and> calculate_late_fee_for_book all_ok (noon 130) (PStr (str ''123456''))
         (PStr (str ''abc'')) busy_store
       = Inr no_loan"
  using late_fee_safe_default
          [of "PStr (str ''12345'')" "PInt 1" all_ok "noon 130" busy_store 1]
    late_fee_safe_default
          [of "PStr (str ''123456'')" "PStr (str ''abc'')" all_ok "noon 130" busy_store 1]
    short_patron_id busy_store_fee
  by simp

section \<open>The availability invariant: proofs\<close>

lemma filter_map_le:
  assumes "\<And>x. P (g x) \<Longrightarrow> P x"
  shows "length (filter P (map g xs)) \<le> length (filter P xs)"
  using assms by (induction xs) auto

lemma filter_map_less:
  assumes "\<And>x. P (g x) \<Longrightarrow> P x" and "x \<in> set xs" and "P x" and "\<not> P (g x)"
  shows "length (filter P (map g xs)) < length (filter P xs)"
  using assms(2)
proof (induction xs)
  case Nil
  then show ?case by simp
next
  case (Cons y ys)
  show ?case
  proof (cases "y = x")
    case True
    have "length (filter P (map g ys)) \<le> length (filter P ys)"
      by (rule filter_map_le) (rule assms(1))
    then show ?thesis using True assms(3,4) by simp
  next
    case False
    then have "x \<in> set ys" using Cons.prems by simp
    then have "length (filter P (map g ys)) < length (filter P ys)" by (rule Cons.IH)
    then show ?thesis using assms(1) [of y] by auto
  qed
qed

lemma find_distinct_id:
  "distinct (map b_id bs) \<Longrightarrow> find (\<lambda>b. b_id b = n) bs = Some bk \<Longrightarrow> b \<in> set bs \<Longrightarrow>
   b_id b = n \<Longrightarrow> b = bk"
  by (induction bs) (auto split: if_splits)

lemma find_Some_in_set:
  "find (\<lambda>b. b_id b = n) bs = Some bk \<Longrightarrow> bk \<in> set bs \<and> b_id bk = n"
  by (induction bs) (auto split: if_splits)

lemma consistent_empty: "consistent empty_store"
  by (simp add: consistent_def empty_store_def)

lemma consistent_bounds:
  assumes "consistent s" and "b \<in> set (books s)"
  shows "0 \<le> b_available_copies b \<and> b_available_copies b \<le> b_total_copies b"
proof -
  have "0 \<le> active_on s (b_id b)" by (simp add: active_on_def)
  then show ?thesis using assms by (fastforce simp: consistent_def)
qed

lemma consistent_insert_book:
  assumes "consistent s" and "0 < c"
  shows "consistent (s\<lparr>books := books s @
           [\<lparr>b_id = max_id (map b_id (books s)) + 1, b_title = t, b_author = a,
             b_isbn = i, b_total_copies = c, b_available_copies = c\<rparr>]\<rparr>)"
proof -
  let ?k = "max_id (map b_id (books s)) + 1"
  have fresh: "?k \<notin> b_id ` set (books s)"
  proof
    assume "?k \<in> b_id ` set (books s)"
    then have "?k \<in> set (map b_id (books s))" by simp
    then have "?k \<le> max_id (map b_id (books s))" by (rule max_id_ge)
    then show False by simp
  qed
  have "\<forall>r\<in>set (borrows s). r_book_id r \<noteq> ?k"
    using assms(1) fresh unfolding consistent_def by metis
  then have none:
    "filter (\<lambda>r. r_book_id r = ?k \<and> r_return_date r = None) (borrows s) = []"
    by (simp add: filter_empty_conv)
  show ?thesis
    using assms fresh none by (auto simp: consistent_def active_on_def)
qed

lemma consistent_borrowed:
  assumes "consistent s" and "get_book_by_id s n = Some bk" and "0 < b_available_copies bk"
  shows "consistent (snd (update_book_availability True n (- 1)
                      (snd (insert_borrow_record True p n now due s))))"
proof -
  let ?new = "\<lparr>r_id = max_id (map r_id (borrows s)) + 1, r_patron_id = p, r_book_id = n,
               r_borrow_date = now, r_due_date = Some due,
               r_return_date = None :: datetime option\<rparr>"
  let ?f = "\<lambda>b. if b_id b = n
                then b\<lparr>b_available_copies := b_available_copies b + (- 1)\<rparr> else b"
  define s' where "s' = snd (update_book_availability True n (- 1)
                      (snd (insert_borrow_record True p n now due s)))"
  have bks: "books s' = map ?f (books s)"
    by (simp add: s'_def update_book_availability_def insert_borrow_record_def)
  have brs: "borrows s' = borrows s @ [?new]"
    by (simp add: s'_def update_book_availability_def insert_borrow_record_def)
  have comp: "b_id \<circ> ?f = b_id"
    by (rule ext) simp
  have ids: "map b_id (books s') = map b_id (books s)"
    by (simp add: bks comp)
  have bk: "bk \<in> set (books s)" "b_id bk = n"
    using find_Some_in_set assms(2) unfolding get_book_by_id_def by blast+
  have act: "active_on s' m = active_on s m + (if m = n then 1 else 0)" for m
    by (simp add: active_on_def brs)
  have d: "distinct (map b_id (books s'))"
    using assms(1) by (simp only: ids consistent_def)
  have r: "\<forall>r\<in>set (borrows s'). r_book_id r \<in> b_id ` set (books s')"
  proof -
    have "set (map b_id (books s')) = set (map b_id (books s))"
      by (simp only: ids)
    then have "b_id ` set (books s') = b_id ` set (books s)"
      by (simp only: set_map)
    then show ?thesis using assms(1) bk by (auto simp: brs consistent_def)
  qed
  have b: "\<forall>b\<in>set (books s').
             0 \<le> b_available_copies b
             \<and> b_available_copies b + active_on s' (b_id b) \<le> b_total_copies b"
  proof
    fix b assume "b \<in> set (books s')"
    then obtain b0 where b0: "b0 \<in> set (books s)" "b = ?f b0"
      by (auto simp: bks)
    have inv0: "0 \<le> b_available_copies b0"
      "b_available_copies b0 + active_on s (b_id b0) \<le> b_total_copies b0"
      using assms(1) b0(1) by (auto simp: consistent_def)
    show "0 \<le> b_available_copies b
             \<and> b_available_copies b + active_on s' (b_id b) \<le> b_total_copies b"
    proof (cases "b_id b0 = n")
      case True
      have "b0 = bk"
        using find_distinct_id [OF _ assms(2) [unfolded get_book_by_id_def] b0(1) True]
          assms(1) by (simp add: consistent_def)
      then show ?thesis using True b0(2) inv0 assms(3) by (simp add: act)
    next
      case False
      then show ?thesis using b0(2) inv0 by (simp add: act)
    qed
  qed
  have "consistent s'"
    unfolding consistent_def using d r b by (intro conjI)
  then show ?thesis by (simp only: s'_def)
qed

lemma returned_store:
  assumes "active_borrow s p n = Some row"
  shows "snd (update_borrow_record_return_date True p n now s)
           = s\<lparr>borrows := map (\<lambda>x. if r_id x = r_id row
                                   then x\<lparr>r_return_date := Some now\<rparr> else x) (borrows s)\<rparr>"
  using assms by (simp add: update_borrow_record_return_date_def)

lemma active_on_returned:
  assumes "active_borrow s p n = Some row"
  shows "active_on (snd (update_borrow_record_return_date True p n now s)) m \<le> active_on s m"
    and "active_on (snd (update_borrow_record_return_date True p n now s)) n < active_on s n"
proof -
  let ?g = "\<lambda>x. if r_id x = r_id row then x\<lparr>r_return_date := Some now\<rparr> else x"
  let ?P = "\<lambda>m r. r_book_id r = m \<and> r_return_date r = None"
  have mono: "?P m (?g x) \<Longrightarrow> ?P m x" for m x
    by (cases "r_id x = r_id row") simp_all
  have row: "row \<in> set (borrows s)" "?P n row"
    using active_borrow_is_active [OF assms] by (simp_all add: active_for_def)
  have "length (filter (?P m) (map ?g (borrows s))) \<le> length (filter (?P m) (borrows s))"
    by (rule filter_map_le) (rule mono)
  then show "active_on (snd (update_borrow_record_return_date True p n now s)) m
               \<le> active_on s m"
    by (simp add: active_on_def returned_store [OF assms])
  have "\<not> ?P n (?g row)" by simp
  then have "length (filter (?P n) (map ?g (borrows s))) < length (filter (?P n) (borrows s))"
    using filter_map_less [of "?P n" ?g row "borrows s"] mono row by blast
  then show "active_on (snd (update_borrow_record_return_date True p n now s)) n
               < active_on s n"
    by (simp add: active_on_def returned_store [OF assms])
qed

lemma book_ids_returned:
  assumes "active_borrow s p n = Some row"
  shows "map r_book_id (borrows (snd (update_borrow_record_return_date True p n now s)))
           = map r_book_id (borrows s)"
proof -
  let ?g = "\<lambda>x. if r_id x = r_id row then x\<lparr>r_return_date := Some now\<rparr> else x"
  have "r_book_id \<circ> ?g = r_book_id" by (rule ext) simp
  then show ?thesis
    by (simp add: returned_store [OF assms])
qed

lemma consistentD:
  assumes "consistent s"
  shows "distinct (map b_id (books s))"
    and "r \<in> set (borrows s) \<Longrightarrow> r_book_id r \<in> b_id ` set (books s)"
    and "b \<in> set (books s) \<Longrightarrow> 0 \<le> b_available_copies b"
    and "b \<in> set (books s) \<Longrightarrow>
           b_available_copies b + active_on s (b_id b) \<le> b_total_copies b"
  using assms by (simp_all add: consistent_def)

lemma consistent_record_returned:
  assumes "consistent s" and "active_borrow s p n = Some row"
  shows "consistent (snd (update_borrow_record_return_date True p n now s))"
proof -
  define s1 where "s1 = snd (update_borrow_record_return_date True p n now s)"
  have bks: "books s1 = books s" by (simp add: s1_def)
  have "map r_book_id (borrows s1) = map r_book_id (borrows s)"
    unfolding s1_def by (rule book_ids_returned [OF assms(2)])
  then have "set (map r_book_id (borrows s1)) = set (map r_book_id (borrows s))"
    by (simp only:)
  then have ids: "r_book_id ` set (borrows s1) = r_book_id ` set (borrows s)"
    by (simp only: set_map)
  have le: "active_on s1 m \<le> active_on s m" for m
    unfolding s1_def by (rule active_on_returned(1) [OF assms(2)])
  have r: "\<forall>r\<in>set (borrows s1). r_book_id r \<in> b_id ` set (books s1)"
  proof
    fix r assume "r \<in> set (borrows s1)"
    then have "r_book_id r \<in> r_book_id ` set (borrows s1)" by (rule imageI)
    then have "r_book_id r \<in> r_book_id ` set (borrows s)" by (simp only: ids)
    then obtain r0 where r0: "r0 \<in> set (borrows s)" "r_book_id r = r_book_id r0" ..
    show "r_book_id r \<in> b_id ` set (books s1)"
      using consistentD(2) [OF assms(1) r0(1)] by (simp only: bks r0(2))
  qed
  have b: "\<forall>b\<in>set (books s1).
             0 \<le> b_available_copies b
             \<and> b_available_copies b + active_on s1 (b_id b) \<le> b_total_copies b"
  proof
    fix b assume "b \<in> set (books s1)"
    then have "b \<in> set (books s)" by (simp only: bks)
    then have "0 \<le> b_available_copies b"
      "b_available_copies b + active_on s (b_id b) \<le> b_total_copies b"
      by (rule consistentD(3) [OF assms(1)], rule consistentD(4) [OF assms(1)])
    then show "0 \<le> b_available_copies b
             \<and> b_available_copies b + active_on s1 (b_id b) \<le> b_total_copies b"
      using le [of "b_id b"] by linarith
  qed
  have d: "distinct (map b_id (books s1))"
    using consistentD(1) [OF assms(1)] by (simp only: bks)
  have "consistent s1"
    unfolding consistent_def using d r b by (intro conjI)
  then show ?thesis by (simp only: s1_def)
qed

lemma consistent_returned:
  assumes "consistent s" and "active_borrow s p n = Some row"
  shows "consistent (snd (update_book_availability True n 1
                      (snd (update_borrow_record_return_date True p n now s))))"
proof -
  define s1 where "s1 = snd (update_borrow_record_return_date True p n now s)"
  define s2 where "s2 = snd (update_book_availability True n 1 s1)"
  let ?f = "\<lambda>b. if b_id b = n
                then b\<lparr>b_available_copies := b_available_copies b + 1\<rparr> else b"
  have c1: "consistent s1"
    unfolding s1_def by (rule consistent_record_returned [OF assms])
  have bks1: "books s1 = books s" by (simp add: s1_def)
  have lt: "active_on s1 n < active_on s n"
    unfolding s1_def by (rule active_on_returned(2) [OF assms(2)])
  have bks: "books s2 = map ?f (books s1)"
    by (simp add: s2_def update_book_availability_def)
  have brs: "borrows s2 = borrows s1"
    by (simp add: s2_def)
  have act: "active_on s2 m = active_on s1 m" for m
    by (simp add: active_on_def brs)
  have comp: "b_id \<circ> ?f = b_id"
    by (rule ext) simp
  have ids: "map b_id (books s2) = map b_id (books s1)"
    by (simp add: bks comp)
  have d: "distinct (map b_id (books s2))"
    using c1 by (simp only: ids consistent_def)
  have r: "\<forall>r\<in>set (borrows s2). r_book_id r \<in> b_id ` set (books s2)"
  proof -
    have "set (map b_id (books s2)) = set (map b_id (books s1))"
      by (simp only: ids)
    then have "b_id ` set (books s2) = b_id ` set (books s1)"
      by (simp only: set_map)
    then show ?thesis using c1 by (simp add: brs consistent_def)
  qed
  have b: "\<forall>b\<in>set (books s2).
             0 \<le> b_available_copies b
             \<and> b_available_copies b + active_on s2 (b_id b) \<le> b_total_copies b"
  proof
    fix b assume "b \<in> set (books s2)"
    then obtain b0 where b0: "b0 \<in> set (books s)" "b = ?f b0"
      by (auto simp: bks bks1)
    have inv0: "0 \<le> b_available_copies b0"
      "b_available_copies b0 + active_on s (b_id b0) \<le> b_total_copies b0"
      using assms(1) b0(1) by (auto simp: consistent_def)
    have inv1: "b_available_copies b0 + active_on s1 (b_id b0) \<le> b_total_copies b0"
      using c1 b0(1) by (auto simp: consistent_def bks1)
    show "0 \<le> b_available_copies b
             \<and> b_available_copies b + active_on s2 (b_id b) \<le> b_total_copies b"
    proof (cases "b_id b0 = n")
      case True
      then show ?thesis using b0(2) inv0 lt by (simp add: act)
    next
      case False
      then show ?thesis using b0(2) inv0 inv1 by (simp add: act)
    qed
  qed
  have "consistent s2"
    unfolding consistent_def using d r b by (intro conjI)
  then show ?thesis by (simp only: s2_def s1_def)
qed

lemma add_book_effect:
  assumes "add_book_to_catalog env title author isbn total_copies s = Inr (r, s')"
  shows "s' = s
         \<or> (\<exists>t a i c. 0 < c
               \<and> s' = s\<lparr>books := books s @
                         [\<lparr>b_id = max_id (map b_id (books s)) + 1, b_title = t,
                           b_author = a, b_isbn = i, b_total_copies = c,
                           b_available_copies = c\<rparr>]\<rparr>)"
proof -
  obtain t where t: "or_empty_strip title = Inr t"
    using assms by (cases "or_empty_strip title") (simp_all add: add_book_to_catalog_def)
  obtain a where a: "or_empty_strip author = Inr a"
    using assms t by (cases "or_empty_strip author") (simp_all add: add_book_to_catalog_def)
  obtain i where i: "or_empty_strip isbn = Inr i"
    using assms t a by (cases "or_empty_strip isbn") (simp_all add: add_book_to_catalog_def)
  show ?thesis
  proof (cases "is_success r")
    case False
    then show ?thesis
      using assms unfolding add_book_stripped [OF t a i]
      by (auto simp: insert_book_def split: if_splits option.splits)
  next
    case True
    then obtain c where "\<not> c \<le> 0"
      and "s' = s\<lparr>books := books s @
                         [\<lparr>b_id = max_id (map b_id (books s)) + 1, b_title = t,
                           b_author = a, b_isbn = i, b_total_copies = c,
                           b_available_copies = c\<rparr>]\<rparr>"
      using assms unfolding add_book_stripped [OF t a i]
      by (auto simp: insert_book_def split: if_splits option.splits)
    then have "0 < c \<and> s' = s\<lparr>books := books s @
                         [\<lparr>b_id = max_id (map b_id (books s)) + 1, b_title = t,
                           b_author = a, b_isbn = i, b_total_copies = c,
                           b_available_copies = c\<rparr>]\<rparr>"
      by simp
    then show ?thesis by blast
  qed
qed

lemma borrow_effect:
  assumes "borrow_book_by_patron env now patron_id book_id s = Inr (r, s')"
    and "r \<noteq> PersistenceError UpdatingBookAvailability"
  shows "s' = s
         \<or> (\<exists>p bk. get_book_by_id s book_id = Some bk \<and> 0 < b_available_copies bk
               \<and> s' = snd (update_book_availability True book_id (- 1)
                        (snd (insert_borrow_record True p book_id now (plus_days now 14) s))))"
proof (cases "patron_check patron_id")
  case (Inl e)
  then show ?thesis using assms by (simp add: borrow_raises)
next
  case (Inr po)
  show ?thesis
  proof (cases po)
    case None
    then show ?thesis using assms Inr by (simp add: borrow_invalid_patron)
  next
    case (Some p)
    then have pc: "patron_check patron_id = Inr (Some p)" using Inr by simp
    show ?thesis
    proof (cases "get_book_by_id s book_id")
      case None
      then show ?thesis using assms by (simp add: borrow_book_not_found [OF pc])
    next
      case bk: (Some bk)
      show ?thesis
      proof (cases "0 < b_available_copies bk")
        case False
        then have "b_available_copies bk \<le> 0" by simp
        then show ?thesis using assms by (simp add: borrow_unavailable [OF pc bk])
      next
        case avail: True
        show ?thesis
        proof (cases "get_patron_borrow_count s p < 5")
          case False
          then have "5 \<le> get_patron_borrow_count s p" by simp
          then show ?thesis using assms by (simp add: borrow_limit [OF pc bk avail])
        next
          case True
          show ?thesis
            using assms bk avail unfolding borrow_past_checks [OF pc bk avail True]
            by (auto split: if_splits)
        qed
      qed
    qed
  qed
qed

lemma return_effect:
  assumes "return_book_by_patron env now patron_id book_id s = Inr (r, s')"
  shows "s' = s
         \<or> (\<exists>p n row. active_borrow s p n = Some row
               \<and> (s' = snd (update_borrow_record_return_date True p n now s)
                  \<or> s' = snd (update_book_availability True n 1
                            (snd (update_borrow_record_return_date True p n now s)))))"
proof (cases "patron_check patron_id")
  case (Inl e)
  then show ?thesis using assms by (simp add: return_raises)
next
  case (Inr po)
  show ?thesis
  proof (cases po)
    case None
    then show ?thesis using assms Inr by (simp add: return_invalid_patron)
  next
    case (Some p)
    then have pc: "patron_check patron_id = Inr (Some p)" using Inr by simp
    show ?thesis
    proof (cases "py_int book_id")
      case None
      then show ?thesis using assms by (simp add: return_invalid_book_id [OF pc])
    next
      case n: (Some n)
      show ?thesis
      proof (cases "get_book_by_id s n")
        case None
        then show ?thesis using assms by (simp add: return_book_not_found [OF pc n])
      next
        case bk: (Some bk)
        show ?thesis
        proof (cases "active_borrow s p n = None \<or> \<not> update_return_date_ok env")
          case True
          then show ?thesis using assms by (simp add: return_not_updated [OF pc n bk])
        next
          case False
          then obtain row where row: "active_borrow s p n = Some row"
            and ok: "update_return_date_ok env"
            by auto
          show ?thesis
            using assms row unfolding return_updated [OF pc n bk row ok]
            by (auto split: if_splits)
        qed
      qed
    qed
  qed
qed

lemma over_returned_replies:
  "replies empty_store over_returned_trace =
     [Inr (Added (str ''1984'')), Inr (PersistenceError UpdatingBookAvailability),
      Inr (Returned (str ''1984''))]"
  by (simp add: over_returned_trace_def decrement_fails_def service_eval store_eval)

text \<open>
  Claim C2 as stated fails: when a borrow inserts its record and then loses the
  availability update, the loan is still active, and returning it raises the available
  copies above the total.
\<close>
theorem availability_bounds_counterexample:
  "map b_total_copies (books (run empty_store over_returned_trace)) = [1]
   \<and> map b_available_copies (books (run empty_store over_returned_trace)) = [2]"
  by (simp add: over_returned_trace_def decrement_fails_def service_eval store_eval)

lemma exec_consistent:
  assumes "consistent s"
    and "fst (exec s x) \<noteq> Inr (PersistenceError UpdatingBookAvailability)"
  shows "consistent (snd (exec s x))"
proof (cases x)
  case (Add env t a i c)
  show ?thesis
  proof (cases "add_book_to_catalog env t a i c s")
    case (Inl e)
    then show ?thesis using assms(1) Add by (simp add: outcome_def)
  next
    case (Inr res)
    obtain r s' where res: "res = (r, s')" by (cases res)
    have "consistent s'"
      using add_book_effect [OF Inr [unfolded res]] assms(1) consistent_insert_book by auto
    then show ?thesis using Add Inr res by (simp add: outcome_def)
  qed
next
  case (Borrow env now p n)
  show ?thesis
  proof (cases "borrow_book_by_patron env now p n s")
    case (Inl e)
    then show ?thesis using assms(1) Borrow by (simp add: outcome_def)
  next
    case (Inr res)
    obtain r s' where res: "res = (r, s')" by (cases res)
    have "r \<noteq> PersistenceError UpdatingBookAvailability"
      using assms(2) Borrow Inr res by (simp add: outcome_def)
    then have "consistent s'"
      using borrow_effect [OF Inr [unfolded res]] assms(1) consistent_borrowed by auto
    then show ?thesis using Borrow Inr res by (simp add: outcome_def)
  qed
next
  case (Return env now p n)
  show ?thesis
  proof (cases "return_book_by_patron env now p n s")
    case (Inl e)
    then show ?thesis using assms(1) Return by (simp add: outcome_def)
  next
    case (Inr res)
    obtain r s' where res: "res = (r, s')" by (cases res)
    have "consistent s'"
      using return_effect [OF Inr [unfolded res]] assms(1) consistent_record_returned
        consistent_returned by auto
    then show ?thesis using Return Inr res by (simp add: outcome_def)
  qed
qed

lemma run_consistent:
  assumes "consistent s"
    and "Inr (PersistenceError UpdatingBookAvailability) \<notin> set (replies s ops)"
  shows "consistent (run s ops)"
  using assms
proof (induction ops arbitrary: s)
  case Nil
  then show ?case by simp
next
  case (Cons x xs)
  have "consistent (snd (exec s x))"
    using Cons.prems by (intro exec_consistent) auto
  then show ?case
    using Cons.prems(2) by (simp add: Cons.IH)
qed

text \<open>
  Claim C2, amended. In every sequence of add, borrow and return operations from the
  empty store in which no borrow loses its availability update after inserting the
  record (no reply is that \<open>PersistenceError\<close>), every book has
  \<open>0 \<le> available_copies \<le> total_copies\<close>; a successful borrow lowers the available
  copies of its book by exactly 1, and a successful return raises them by exactly 1.
\<close>
theorem availability_invariant:
  assumes "Inr (PersistenceError UpdatingBookAvailability) \<notin> set (replies empty_store ops)"
  shows "(\<forall>b\<in>set (books (run empty_store ops)).
            0 \<le> b_available_copies b \<and> b_available_copies b \<le> b_total_copies b)
         \<and> (borrow_book_by_patron env now p n (run empty_store ops) = Inr (r, s')
              \<and> is_success r \<longrightarrow>
            (\<exists>a. available (run empty_store ops) n = Some a \<and> available s' n = Some (a - 1)))
         \<and> (return_book_by_patron env' now' p' m (run empty_store ops) = Inr (r', s'')
              \<and> is_success r' \<longrightarrow>
            (\<exists>k a. py_int m = Some k \<and> available (run empty_store ops) k = Some a
                 \<and> available s'' k = Some (a + 1)))"
proof (intro conjI impI ballI)
  fix b assume "b \<in> set (books (run empty_store ops))"
  moreover have "consistent (run empty_store ops)"
    by (rule run_consistent [OF consistent_empty assms])
  ultimately show "0 \<le> b_available_copies b" "b_available_copies b \<le> b_total_copies b"
    using consistent_bounds by blast+
next
  let ?s = "run empty_store ops"
  assume "borrow_book_by_patron env now p n ?s = Inr (r, s') \<and> is_success r"
  then have b: "borrow_book_by_patron env now p n ?s = Inr (r, s')" "is_success r"
    by simp_all
  from borrow_success [OF b] obtain q bk where
    bk: "get_book_by_id ?s n = Some bk"
    and s': "s' = snd (update_book_availability True n (- 1)
                     (snd (insert_borrow_record True q n now (plus_days now 14) ?s)))"
    by blast
  have "available ?s n = Some (b_available_copies bk)"
    by (simp add: available_def bk)
  moreover have "available s' n = map_option (\<lambda>a. a + (- 1)) (available ?s n)"
    unfolding s' by (simp add: available_update_availability)
  ultimately show "\<exists>a. available ?s n = Some a \<and> available s' n = Some (a - 1)"
    by simp
next
  let ?s = "run empty_store ops"
  assume "return_book_by_patron env' now' p' m ?s = Inr (r', s'') \<and> is_success r'"
  then have b: "return_book_by_patron env' now' p' m ?s = Inr (r', s'')" "is_success r'"
    by simp_all
  from return_success [OF b] obtain q k bk where
    k: "py_int m = Some k" and bk: "get_book_by_id ?s k = Some bk"
    and s'': "s'' = snd (update_book_availability True k 1
                     (snd (update_borrow_record_return_date True q k now' ?s)))"
    by blast
  have "available ?s k = Some (b_available_copies bk)"
    by (simp add: available_def bk)
  moreover have "available s'' k = map_option (\<lambda>a. a + 1) (available ?s k)"
    unfolding s'' by (simp add: available_update_availability)
  ultimately show "\<exists>k a. py_int m = Some k \<and> available ?s k = Some a
                 \<and> available s'' k = Some (a + 1)"
    using k by simp
qed

lemma one_out_eq:
  "run empty_store one_out_trace =
     \<lparr>books = [\<lparr>b_id = 1, b_title = str ''Dune'', b_author = str ''Frank Herbert'',
                b_isbn = str ''9780441013593'', b_total_copies = 2, b_available_copies = 1\<rparr>],
      borrows = [\<lparr>r_id = 1, r_patron_id = str ''123456'', r_book_id = 1,
                  r_borrow_date = noon 100, r_due_date = Some (noon 114),
                  r_return_date = None\<rparr>]\<rparr>"
  by (simp add: one_out_trace_def service_eval store_eval)

lemma one_out_replies:
  "replies empty_store one_out_trace = [Inr (Added (str ''Dune'')), Inr (Borrowed (str ''Dune'') 114)]"
  by (simp add: one_out_trace_def service_eval store_eval)

theorem availability_invariant_witness:
  "Inr (PersistenceError UpdatingBookAvailability) \<notin> set (replies empty_store one_out_trace)
   \<and> map b_total_copies (books (run empty_store one_out_trace)) = [2]
   \<and> map b_available_copies (books (run empty_store one_out_trace)) = [1]
   \<and> (\<exists>s'. borrow_book_by_patron all_ok (noon 101) (PStr (str ''654321'')) 1
               (run empty_store one_out_trace) = Inr (Borrowed (str ''Dune'') 115, s')
           \<and> available s' 1 = Some 0)
   \<and> (\<exists>s''. return_book_by_patron all_ok (noon 102) (PStr (str ''123456'')) (PInt 1)
               (run empty_store one_out_trace) = Inr (Returned (str ''Dune''), s'')
           \<and> available s'' 1 = Some 2)"
proof -
  let ?s = "run empty_store one_out_trace"
  have h: "Inr (PersistenceError UpdatingBookAvailability)
             \<notin> set (replies empty_store one_out_trace)"
    by (simp add: one_out_replies)
  have "\<exists>s1. borrow_book_by_patron all_ok (noon 101) (PStr (str ''654321'')) 1 ?s
                 = Inr (Borrowed (str ''Dune'') 115, s1)"
    unfolding one_out_eq by (simp add: borrow_book_by_patron_def store_eval)
  then obtain s1 where b: "borrow_book_by_patron all_ok (noon 101) (PStr (str ''654321'')) 1 ?s
                        = Inr (Borrowed (str ''Dune'') 115, s1)" ..
  have "\<exists>s2. return_book_by_patron all_ok (noon 102) (PStr (str ''123456'')) (PInt 1) ?s
                 = Inr (Returned (str ''Dune''), s2)"
    unfolding one_out_eq by (simp add: return_book_by_patron_def store_eval)
  then obtain s2 where r: "return_book_by_patron all_ok (noon 102) (PStr (str ''123456'')) (PInt 1) ?s
                        = Inr (Returned (str ''Dune''), s2)" ..
  have a: "available ?s 1 = Some 1" "py_int (PInt 1) = Some 1"
    unfolding one_out_eq by (simp_all add: available_def store_eval)
  note inv = availability_invariant [OF h, of all_ok "noon 101" "PStr (str ''654321'')" 1
      "Borrowed (str ''Dune'') 115" s1 all_ok "noon 102" "PStr (str ''123456'')" "PInt 1"
      "Returned (str ''Dune'')" s2]
  have "available s1 1 = Some 0"
    using inv b a by simp
  moreover have "available s2 1 = Some 2"
    using inv r a by simp
  ultimately show ?thesis
    using h b r by (simp add: one_out_eq)
qed

end
